theory Spec2Isabelle
  imports Main "HOL-Library.AList" "HOL-Library.Char_ord" "HOL-Library.List_Lexorder"
begin

section \<open>Data model of the orchestrator (src/index.ts)\<close>

text \<open>
  The orchestrator \<open>main\<close> of \<open>src/index.ts\<close> is embedded as a function over an explicit
  process state. Its collaborators (\<open>./traverse\<close>, \<open>./cache\<close>, \<open>./config\<close>, \<open>./meta\<close>,
  \<open>./process\<close>, \<open>./fs\<close>, \<open>./print\<close>, \<open>read-pkg-up\<close>, \<open>simple-git\<close>, \<open>path\<close>) are not part
  of the sources; they are the fields of a record of functions that every
  definition takes as its first argument, so each theorem holds for all of them.
\<close>

text \<open>\<open>interface CliArguments\<close> (index.ts, lines 270-278).\<close>

record CliArguments =
  flow :: bool
  update :: bool
  init :: bool
  ignoreUntracked :: bool
  clearCache :: bool
  cache :: bool
  cwd :: "string option"

text \<open>
  A thrown JavaScript value, as far as \<open>main\<close> observes it: whether it is an
  \<open>instanceof InvalidCacheError\<close> (line 177), its \<open>path\<close> property (line 260; \<open>None\<close> when
  the value has none) and its \<open>message\<close> (line 254). The spec's \<open>ParseError{path}\<close> is such a value that is no
  \<open>InvalidCacheError\<close> and carries the offending path.
\<close>

datatype error = Error (isInvalidCacheError: bool) (errorPath: "string option") (errorMessage: string)

text \<open>
  Modelled from the spec: the types of the traversal data, declared in \<open>./traverse\<close>,
  which is not among the sources. The fields are those of the spec's data model
  (section 3) that \<open>main\<close> reads: \<open>files\<close>, \<open>modules\<close>, \<open>unresolved\<close>, the \<open>imports\<close> of a
  file record (here \<open>fileImports\<close>) and the \<open>path\<close> of an import. A JavaScript \<open>Map\<close>
  is an association list in insertion order, a JavaScript \<open>Set\<close> a list in insertion
  order.
\<close>

record ImportEntry =
  path :: string
  specifier :: string

record FileRecord =
  filePath :: string
  fileImports :: "ImportEntry list"

record TraversalResult =
  files :: "(string \<times> FileRecord) list"
  modules :: "string list"
  unresolved :: "string list"

type_synonym Aliases = "(string \<times> string list) list"
type_synonym Dependencies = "(string \<times> string) list"

text \<open>
  Modelled from the spec: \<open>EntryConfig\<close> and \<open>Config\<close>, declared in \<open>./config\<close>, which is
  not among the sources. The fields are the ones \<open>main\<close> reads, and the per-entry
  overrides of the spec (extensions and aliases).
\<close>

record EntryConfig =
  entryFile :: string
  label :: "string option"
  entryExtensions :: "string list"
  entryAliases :: Aliases

record Config =
  configFlow :: "bool option"
  configModuleDirectory :: "string list option"
  ignorePatterns :: "string list"
  ignoreUnimported :: "string list"
  ignoreUnused :: "string list"
  ignoreUnresolved :: "string list"
  entryFiles :: "EntryConfig list"
  preset :: "string option"
  configExtensions :: "string list"

text \<open>
  \<open>TraverseConfig\<close> as \<open>main\<close> builds it (lines 160-169); its fields \<open>flow\<close> and \<open>preset\<close>
  are \<open>traverseFlow\<close> and \<open>traversePreset\<close> here.
\<close>

record TraverseConfig =
  extensions :: "string list"
  aliases :: Aliases
  cacheId :: "string option"
  traverseFlow :: bool
  moduleDirectory :: "string list"
  traversePreset :: "string option"
  dependencies :: Dependencies

text \<open>
  \<open>interface Context\<close> (lines 60-70) as built at lines 122-130: the spread \<open>...args\<close> is
  the field \<open>contextArgs\<close>, and \<open>cwd\<close>, written after the spread, is \<open>contextCwd\<close>.
\<close>

record Context =
  version :: string
  contextDependencies :: Dependencies
  peerDependencies :: Dependencies
  config :: Config
  contextModuleDirectory :: "string list"
  contextArgs :: CliArguments
  contextCwd :: string

text \<open>
  What \<open>readPkgUp\<close> returns when it finds a manifest (\<open>path\<close> and
  \<open>packageJson.version\<close>), what \<open>processResults\<close> returns (\<open>main\<close> reads \<open>clean\<close>), and the
  four lists handed to \<open>writeConfig\<close> (lines 133-138).
\<close>

record PkgUp =
  pkgPath :: string
  pkgVersion :: string

record ProcessedResult =
  unimported :: "string list"
  unresolvedImports :: "string list"
  unused :: "string list"
  clean :: bool

record IgnoreLists =
  listPatterns :: "string list"
  listUnimported :: "string list"
  listUnused :: "string list"
  listUnresolved :: "string list"

section \<open>Observable actions\<close>

text \<open>
  What the run does to the outside is recorded, in order, in a trace: console
  output, spinner updates and every call of a collaborator that acts on the
  cache, the file system or the terminal.
\<close>

datatype consoleArg = RedBright string | Plain string | ErrorValue error

datatype event =
    ConsoleError consoleArg
  | ConsoleLog consoleArg
  | LogInfo string
  | LogStartTraversal EntryConfig
  | OraStart string
  | OraText string
  | OraStop
  | Chdir string
  | CallTraverse string TraverseConfig
  | CallPurgeCache
  | CallStoreCache
  | CallWriteConfig IgnoreLists
  | CallUpdateAllowLists ProcessedResult Context
  | CallPrintResults ProcessedResult Context

text \<open>
  The collaborators. \<open>'w\<close> is the state of the world they act on (the file system and the
  cache). Those that \<open>main\<close> awaits can reject, so they return \<open>error + 'a\<close>.
\<close>

record 'w externs =
  moduleDir :: string
  nodeEnvTest :: bool
  logEnabled :: bool
  readPkgUp :: "string \<Rightarrow> 'w \<Rightarrow> error + PkgUp option"
  pathDirname :: "string \<Rightarrow> string"
  pathResolve :: "string \<Rightarrow> string \<Rightarrow> string"
  pathJoin :: "string \<Rightarrow> string \<Rightarrow> string"
  getConfig :: "'w \<Rightarrow> error + Config"
  getDependencies :: "string \<Rightarrow> 'w \<Rightarrow> error + Dependencies"
  getPeerDependencies :: "string \<Rightarrow> 'w \<Rightarrow> error + Dependencies"
  writeConfig :: "IgnoreLists \<Rightarrow> 'w \<Rightarrow> (error + unit) \<times> 'w"
  gitStatusNotAdded :: "string \<Rightarrow> 'w \<Rightarrow> error + string list"
  getAliases :: "EntryConfig \<Rightarrow> 'w \<Rightarrow> error + Aliases"
  getCacheIdentity :: "string \<Rightarrow> EntryConfig \<Rightarrow> string"
  traverse :: "string \<Rightarrow> TraverseConfig \<Rightarrow> 'w \<Rightarrow> (error + TraversalResult) \<times> 'w"
  purgeCache :: "'w \<Rightarrow> 'w"
  storeCache :: "'w \<Rightarrow> 'w"
  fsExists :: "string \<Rightarrow> string \<Rightarrow> 'w \<Rightarrow> error + bool"
  fsList :: "string \<Rightarrow> string \<Rightarrow> string list \<Rightarrow> string list \<Rightarrow> 'w \<Rightarrow> error + string list"
  processResults :: "string list \<Rightarrow> TraversalResult \<Rightarrow> Context \<Rightarrow> 'w \<Rightarrow> error + ProcessedResult"
  updateAllowLists :: "ProcessedResult \<Rightarrow> Context \<Rightarrow> 'w \<Rightarrow> (error + unit) \<times> 'w"

text \<open>
  The process: the world, the working directory (\<open>process.cwd()\<close>, changed only by
  \<open>process.chdir\<close> at line 98) and the trace so far.
\<close>

record 'w state =
  world :: 'w
  processCwd :: string
  trace :: "event list"

text \<open>
  How a piece of \<open>main\<close> ends: it completes with a value, it throws (a rejected
  promise), or \<open>process.exit(code)\<close> ends the process. An exit is not an exception: no
  \<open>catch\<close> sees it.
\<close>

datatype 'a completion = Normal 'a | Thrown error | Exited int

type_synonym ('w, 'a) io = "'w state \<Rightarrow> 'a completion \<times> 'w state"

definition ret :: "'a \<Rightarrow> ('w, 'a) io" where
  "ret x s = (Normal x, s)"

definition throw :: "error \<Rightarrow> ('w, 'a) io" where
  "throw e s = (Thrown e, s)"

definition processExit :: "int \<Rightarrow> ('w, 'a) io" where
  "processExit code s = (Exited code, s)"

definition bnd :: "('w, 'a) io \<Rightarrow> ('a \<Rightarrow> ('w, 'b) io) \<Rightarrow> ('w, 'b) io" where
  "bnd m f s =
     (case m s of
        (Normal x, s') \<Rightarrow> f x s'
      | (Thrown e, s') \<Rightarrow> (Thrown e, s')
      | (Exited code, s') \<Rightarrow> (Exited code, s'))"

definition tryCatch :: "('w, 'a) io \<Rightarrow> (error \<Rightarrow> ('w, 'a) io) \<Rightarrow> ('w, 'a) io" where
  "tryCatch m handler s =
     (case m s of
        (Normal x, s') \<Rightarrow> (Normal x, s')
      | (Thrown e, s') \<Rightarrow> handler e s'
      | (Exited code, s') \<Rightarrow> (Exited code, s'))"

definition emit :: "event \<Rightarrow> ('w, unit) io" where
  "emit ev s = (Normal (), s\<lparr>trace := trace s @ [ev]\<rparr>)"

text \<open>A collaborator that only reads the world.\<close>

definition reading :: "('w \<Rightarrow> error + 'a) \<Rightarrow> ('w, 'a) io" where
  "reading f s = (case f (world s) of Inl e \<Rightarrow> (Thrown e, s) | Inr x \<Rightarrow> (Normal x, s))"

text \<open>A collaborator that changes the world; the call is recorded in the trace.\<close>

definition acting :: "event \<Rightarrow> ('w \<Rightarrow> (error + 'a) \<times> 'w) \<Rightarrow> ('w, 'a) io" where
  "acting ev f s =
     (case f (world s) of
        (Inl e, w) \<Rightarrow> (Thrown e, s\<lparr>world := w, trace := trace s @ [ev]\<rparr>)
      | (Inr x, w) \<Rightarrow> (Normal x, s\<lparr>world := w, trace := trace s @ [ev]\<rparr>))"

definition callTraverse :: "'w externs \<Rightarrow> string \<Rightarrow> TraverseConfig \<Rightarrow> ('w, TraversalResult) io" where
  "callTraverse X p c = acting (CallTraverse p c) (traverse X p c)"

definition callPurgeCache :: "'w externs \<Rightarrow> ('w, unit) io" where
  "callPurgeCache X = acting CallPurgeCache (\<lambda>w. (Inr (), purgeCache X w))"

definition callStoreCache :: "'w externs \<Rightarrow> ('w, unit) io" where
  "callStoreCache X = acting CallStoreCache (\<lambda>w. (Inr (), storeCache X w))"

definition getCwd :: "('w, string) io" where
  "getCwd s = (Normal (processCwd s), s)"

definition chdir :: "string \<Rightarrow> ('w, unit) io" where
  "chdir dir s = (Normal (), s\<lparr>processCwd := dir, trace := trace s @ [Chdir dir]\<rparr>)"

section \<open>The merge of one entry's result into the run's result (lines 186-212)\<close>

text \<open>\<open>Set.prototype.add\<close>: a new element goes last, a known one changes nothing.\<close>

definition setAdd :: "'a \<Rightarrow> 'a list \<Rightarrow> 'a list" where
  "setAdd x xs = (if x \<in> set xs then xs else xs @ [x])"

text \<open>
  Line 186, \<open>new Map([...subResult.files].sort())\<close>: \<open>sort\<close> without a comparator orders
  the \<open>[key, stat]\<close> pairs by their string conversion, the key, a comma and the
  conversion of the record, a plain object. The sort is stable; \<open>sort_key\<close> is the
  stable insertion sort, on the lexicographic order of the characters' codes.
\<close>

definition objectToString :: "FileRecord \<Rightarrow> string" where
  "objectToString stat = ''[object Object]''"

definition sortFiles :: "(string \<times> FileRecord) list \<Rightarrow> (string \<times> FileRecord) list" where
  "sortFiles fs = sort_key (\<lambda>(key, stat). key @ '','' @ objectToString stat) fs"

text \<open>
  Lines 204-211: \<open>added\<close> starts as the paths of \<open>prev.imports\<close>; each import of \<open>stat\<close>
  whose path is not in \<open>added\<close> is pushed onto \<open>prev.imports\<close> and its path added.
\<close>

fun pushNew :: "ImportEntry list \<Rightarrow> string set \<Rightarrow> ImportEntry list \<Rightarrow> ImportEntry list" where
  "pushNew prevImports added [] = prevImports"
| "pushNew prevImports added (f # rest) =
     (if path f \<in> added then pushNew prevImports added rest
      else pushNew (prevImports @ [f]) (insert (path f) added) rest)"

text \<open>
  Lines 196-212. \<open>Map.prototype.set\<close> on a new key appends the pair, which is
  \<open>AList.update\<close>; the push onto \<open>prev.imports\<close> changes the record stored under the key.
\<close>

fun mergeFiles :: "(string \<times> FileRecord) list \<Rightarrow> (string \<times> FileRecord) list \<Rightarrow> (string \<times> FileRecord) list" where
  "mergeFiles acc [] = acc"
| "mergeFiles acc ((key, stat) # rest) =
     (case map_of acc key of
        None \<Rightarrow> mergeFiles (AList.update key stat acc) rest
      | Some prev \<Rightarrow>
          mergeFiles
            (AList.update key
               (prev\<lparr>fileImports :=
                  pushNew (fileImports prev) (set (map path (fileImports prev))) (fileImports stat)\<rparr>)
               acc)
            rest)"

text \<open>
  Modelled from the spec: \<open>getResultObject\<close> of \<open>./traverse\<close>, which is not among the
  sources. It returns a fresh \<open>TraversalResult\<close>, an empty map and two empty sets, the
  accumulator the loop starts from (line 155).
\<close>

definition getResultObject :: TraversalResult where
  "getResultObject = \<lparr>files = [], modules = [], unresolved = []\<rparr>"

definition mergeResult :: "TraversalResult \<Rightarrow> TraversalResult \<Rightarrow> TraversalResult" where
  "mergeResult traverseResult subResult =
     \<lparr>files = mergeFiles (files traverseResult) (sortFiles (files subResult)),
      modules = fold setAdd (modules subResult) (modules traverseResult),
      unresolved = fold setAdd (unresolved subResult) (unresolved traverseResult)\<rparr>"

section \<open>The traversal of the entry points (lines 157-213)\<close>

text \<open>Lines 160-169.\<close>

definition traverseConfigOf ::
  "'w externs \<Rightarrow> CliArguments \<Rightarrow> Config \<Rightarrow> string list \<Rightarrow> Dependencies \<Rightarrow> string \<Rightarrow>
   EntryConfig \<Rightarrow> Aliases \<Rightarrow> TraverseConfig" where
  "traverseConfigOf X args cfg modDirs deps dir entry als =
     \<lparr>extensions = entryExtensions entry,
      aliases = als,
      cacheId = (if cache args then Some (getCacheIdentity X dir entry) else None),
      traverseFlow = flow args,
      moduleDirectory = modDirs,
      traversePreset = preset cfg,
      dependencies = deps\<rparr>"

text \<open>
  Lines 175-184: \<open>traverse(p, c).catch(...).then(() => traverse(p, c))\<close>. The promise
  after \<open>catch\<close> is fulfilled with the first result, or with \<open>undefined\<close> once the handler has
  purged the cache; it stays rejected when the handler throws the error again. \<open>then\<close>
  runs on a fulfilled promise only, and its callback ignores the value.
\<close>

definition traverseWithRetry :: "'w externs \<Rightarrow> string \<Rightarrow> TraverseConfig \<Rightarrow> ('w, TraversalResult) io" where
  "traverseWithRetry X p c =
     bnd (tryCatch
            (bnd (callTraverse X p c) (\<lambda>first. ret (Some first)))
            (\<lambda>err. if isInvalidCacheError err then bnd (callPurgeCache X) (\<lambda>_. ret None)
                  else throw err))
         (\<lambda>_. callTraverse X p c)"

text \<open>The body of the loop up to the merge (lines 158-184).\<close>

definition traverseEntry ::
  "'w externs \<Rightarrow> (EntryConfig \<Rightarrow> Aliases \<Rightarrow> TraverseConfig) \<Rightarrow> EntryConfig \<Rightarrow> ('w, TraversalResult) io" where
  "traverseEntry X mk entry =
     bnd (emit (LogStartTraversal entry)) (\<lambda>_.
     bnd (reading (getAliases X entry)) (\<lambda>als.
     bnd getCwd (\<lambda>dir.
     traverseWithRetry X (pathResolve X dir (entryFile entry)) (mk entry als))))"

fun traverseEntries ::
  "'w externs \<Rightarrow> (EntryConfig \<Rightarrow> Aliases \<Rightarrow> TraverseConfig) \<Rightarrow> EntryConfig list \<Rightarrow>
   TraversalResult \<Rightarrow> ('w, TraversalResult) io" where
  "traverseEntries X mk [] traverseResult = ret traverseResult"
| "traverseEntries X mk (entry # rest) traverseResult =
     bnd (traverseEntry X mk entry)
       (\<lambda>subResult. traverseEntries X mk rest (mergeResult traverseResult subResult))"

section \<open>The orchestrator \<open>main\<close> (lines 81-268)\<close>

datatype spinner = OraStub | Ora

text \<open>Lines 72-79 and 106-109: the stub logs, the real spinner draws.\<close>

definition makeSpinner :: "'w externs \<Rightarrow> ('w, spinner) io" where
  "makeSpinner X =
     (if logEnabled X \<or> nodeEnvTest X then ret OraStub
      else bnd (emit (OraStart ''initializing'')) (\<lambda>_. ret Ora))"

fun textEvent :: "spinner \<Rightarrow> string \<Rightarrow> event" where
  "textEvent OraStub msg = LogInfo msg"
| "textEvent Ora msg = OraText msg"

fun stopEvent :: "spinner \<Rightarrow> event" where
  "stopEvent OraStub = LogInfo []"
| "stopEvent Ora = OraStop"

definition spinnerText :: "spinner \<Rightarrow> string \<Rightarrow> ('w, unit) io" where
  "spinnerText sp msg = emit (textEvent sp msg)"

definition spinnerStop :: "spinner \<Rightarrow> ('w, unit) io" where
  "spinnerStop sp = emit (stopEvent sp)"

text \<open>Line 223: every backslash of a listed path becomes a slash.\<close>

definition normalizeSlashes :: "string \<Rightarrow> string" where
  "normalizeSlashes p = map (\<lambda>c. if c = CHR 0x5C then CHR ''/'' else c) p"

text \<open>Lines 215-250.\<close>

definition afterTraversal ::
  "'w externs \<Rightarrow> CliArguments \<Rightarrow> Config \<Rightarrow> Context \<Rightarrow> string \<Rightarrow> spinner \<Rightarrow> TraversalResult \<Rightarrow>
   ('w, unit) io" where
  "afterTraversal X args cfg context dir sp traverseResult =
     bnd (spinnerText sp ''traverse the file system'') (\<lambda>_.
     bnd (reading (fsExists X ''src'' dir)) (\<lambda>hasSrc.
     bnd (reading (fsList X ''**/*'' (if hasSrc then pathJoin X dir ''src'' else dir)
            (configExtensions cfg) (ignorePatterns cfg))) (\<lambda>listed.
     bnd (spinnerText sp ''process results'') (\<lambda>_.
     bnd (spinnerStop sp) (\<lambda>_.
     bnd (reading (processResults X (map normalizeSlashes listed) traverseResult context)) (\<lambda>result.
     bnd (if cache args then callStoreCache X else ret ()) (\<lambda>_.
     bnd (if update args
          then bnd (acting (CallUpdateAllowLists result context) (updateAllowLists X result context))
                 (\<lambda>_. processExit 0)
          else emit (CallPrintResults result context)) (\<lambda>_.
     if \<not> clean result then processExit 1 else ret ()))))))))"

text \<open>
  Lines 112-151, the body of \<open>try\<close> before the traversal. The push onto
  \<open>config.ignorePatterns\<close> (line 148) changes the object that \<open>context.config\<close> refers
  to, so the context handed on holds the extended patterns. Both members of
  \<open>Promise.all\<close> are started; they only read. The values handed on are \<open>args\<close> (with
  \<open>flow\<close> overwritten at line 113), \<open>config\<close>, \<open>dependencies\<close>, \<open>moduleDirectory\<close> and
  \<open>context\<close>.
\<close>

definition mainSetup ::
  "'w externs \<Rightarrow> CliArguments \<Rightarrow> PkgUp \<Rightarrow> string \<Rightarrow> spinner \<Rightarrow>
   ('w, CliArguments \<times> Config \<times> Dependencies \<times> string list \<times> Context) io" where
  "mainSetup X args0 unimportedPkg dir sp =
     bnd (reading (getConfig X)) (\<lambda>cfg0.
     bnd (ret (args0\<lparr>flow := (case configFlow cfg0 of Some f \<Rightarrow> f | None \<Rightarrow> flow args0)\<rparr>)) (\<lambda>args.
     bnd (reading (getDependencies X dir)) (\<lambda>deps.
     bnd (reading (getPeerDependencies X dir)) (\<lambda>peerDeps.
     bnd (ret (case configModuleDirectory cfg0 of Some d \<Rightarrow> d | None \<Rightarrow> [''node_modules''])) (\<lambda>modDirs.
     bnd (if init args
          then bnd (acting
                      (CallWriteConfig
                         \<lparr>listPatterns = ignorePatterns cfg0, listUnimported = ignoreUnimported cfg0,
                          listUnused = ignoreUnused cfg0, listUnresolved = ignoreUnresolved cfg0\<rparr>)
                      (writeConfig X
                         \<lparr>listPatterns = ignorePatterns cfg0, listUnimported = ignoreUnimported cfg0,
                          listUnused = ignoreUnused cfg0, listUnresolved = ignoreUnresolved cfg0\<rparr>))
                 (\<lambda>_. bnd (spinnerStop sp) (\<lambda>_. processExit 0))
          else ret ()) (\<lambda>_.
     bnd (if ignoreUntracked args
          then bnd (reading (gitStatusNotAdded X dir))
                 (\<lambda>notAdded. ret (cfg0\<lparr>ignorePatterns := ignorePatterns cfg0 @ map (pathResolve X dir) notAdded\<rparr>))
          else ret cfg0) (\<lambda>cfg.
     ret (args, cfg, deps, modDirs,
          \<lparr>version = pkgVersion unimportedPkg, contextDependencies = deps,
           peerDependencies = peerDeps, config = cfg, contextModuleDirectory = modDirs,
           contextArgs = args, contextCwd = dir\<rparr>))))))))"

text \<open>Lines 153-213: the spinner text and the loop over \<open>config.entryFiles\<close>.\<close>

definition mainTraversal ::
  "'w externs \<Rightarrow> CliArguments \<Rightarrow> Config \<Rightarrow> Dependencies \<Rightarrow> string list \<Rightarrow> string \<Rightarrow> spinner \<Rightarrow>
   ('w, TraversalResult) io" where
  "mainTraversal X args cfg deps modDirs dir sp =
     bnd (spinnerText sp ''resolving imports'') (\<lambda>_.
     traverseEntries X (traverseConfigOf X args cfg modDirs deps dir) (entryFiles cfg) getResultObject)"

text \<open>Lines 112-250, the whole body of \<open>try\<close>.\<close>

definition mainTry :: "'w externs \<Rightarrow> CliArguments \<Rightarrow> PkgUp \<Rightarrow> string \<Rightarrow> spinner \<Rightarrow> ('w, unit) io" where
  "mainTry X args0 unimportedPkg dir sp =
     bnd (mainSetup X args0 unimportedPkg dir sp) (\<lambda>(args, cfg, deps, modDirs, context).
     bnd (mainTraversal X args cfg deps modDirs dir sp) (\<lambda>traverseResult.
     afterTraversal X args cfg context dir sp traverseResult))"

text \<open>Lines 251-267, the \<open>catch\<close> block.\<close>

fun failureMessage :: "string option \<Rightarrow> string" where
  "failureMessage None = ''something unexpected happened''"
| "failureMessage (Some p) =
     (if p = [] then ''something unexpected happened'' else CHR 0x0A # ''Failed parsing '' @ p)"

definition mainCatch :: "'w externs \<Rightarrow> spinner \<Rightarrow> error \<Rightarrow> ('w, unit) io" where
  "mainCatch X sp err =
     bnd (if nodeEnvTest X then emit (ConsoleLog (Plain (errorMessage err))) else ret ()) (\<lambda>_.
     bnd (spinnerStop sp) (\<lambda>_.
     bnd (emit (ConsoleError (RedBright (failureMessage (errorPath err))))) (\<lambda>_.
     bnd (emit (ConsoleError (ErrorValue err))) (\<lambda>_.
     processExit 1))))"

text \<open>Lines 86-94.\<close>

definition noPackageJson :: "('w, unit) io" where
  "noPackageJson =
     bnd (emit (ConsoleError (RedBright ''could not resolve package.json, are you in a node project?'')))
       (\<lambda>_. processExit 1)"

text \<open>Lines 96-268, once both manifests are found and differ.\<close>

definition mainInProject :: "'w externs \<Rightarrow> CliArguments \<Rightarrow> PkgUp \<Rightarrow> PkgUp \<Rightarrow> ('w, unit) io" where
  "mainInProject X args projectPkg unimportedPkg =
     bnd (chdir (pathDirname X (pkgPath projectPkg))) (\<lambda>_.
     bnd getCwd (\<lambda>dir.
     if clearCache args then callPurgeCache X
     else bnd (makeSpinner X) (\<lambda>sp.
          tryCatch (mainTry X args unimportedPkg dir sp) (mainCatch X sp))))"

text \<open>
  \<open>main\<close>. \<open>readPkgUp\<close> without a \<open>cwd\<close> option searches from the working directory;
  \<open>moduleDir\<close> is \<open>__dirname\<close>.
\<close>

definition main :: "'w externs \<Rightarrow> CliArguments \<Rightarrow> ('w, unit) io" where
  "main X args =
     bnd getCwd (\<lambda>dir0.
     bnd (reading (readPkgUp X (case cwd args of Some d \<Rightarrow> d | None \<Rightarrow> dir0))) (\<lambda>projectPkg.
     bnd (reading (readPkgUp X (moduleDir X))) (\<lambda>unimportedPkg.
     case projectPkg of
       None \<Rightarrow> noPackageJson
     | Some pp \<Rightarrow>
         (case unimportedPkg of
            None \<Rightarrow> noPackageJson
          | Some up \<Rightarrow>
              if pkgPath up = pkgPath pp then noPackageJson
              else mainInProject X args pp up))))"

section \<open>Notions used to state the properties\<close>

text \<open>
  The run has entered the project when both manifests are found, they differ, and
  \<open>--clear-cache\<close> is not set (lines 82-104). The \<open>try\<close> statement then starts in the
  project's directory, with the spinner chosen at lines 106-109.
\<close>

definition entersProject :: "'w externs \<Rightarrow> CliArguments \<Rightarrow> 'w state \<Rightarrow> PkgUp \<Rightarrow> PkgUp \<Rightarrow> bool" where
  "entersProject X args s projectPkg unimportedPkg =
     (readPkgUp X (case cwd args of Some d \<Rightarrow> d | None \<Rightarrow> processCwd s) (world s) = Inr (Some projectPkg)
      \<and> readPkgUp X (moduleDir X) (world s) = Inr (Some unimportedPkg)
      \<and> pkgPath unimportedPkg \<noteq> pkgPath projectPkg
      \<and> \<not> clearCache args)"

definition projectDir :: "'w externs \<Rightarrow> PkgUp \<Rightarrow> string" where
  "projectDir X projectPkg = pathDirname X (pkgPath projectPkg)"

definition spinnerOf :: "'w externs \<Rightarrow> spinner" where
  "spinnerOf X = (if logEnabled X \<or> nodeEnvTest X then OraStub else Ora)"

definition atTry :: "'w externs \<Rightarrow> PkgUp \<Rightarrow> 'w state \<Rightarrow> 'w state" where
  "atTry X projectPkg s =
     s\<lparr>processCwd := projectDir X projectPkg,
       trace := trace s @ Chdir (projectDir X projectPkg) #
                (if logEnabled X \<or> nodeEnvTest X then [] else [OraStart ''initializing''])\<rparr>"

text \<open>The normal findings report is the call of \<open>printResults\<close> (line 243).\<close>

fun isReport :: "event \<Rightarrow> bool" where
  "isReport (CallPrintResults result context) = True"
| "isReport ev = False"

definition reports :: "event list \<Rightarrow> event list" where
  "reports evs = filter isReport evs"

fun isTraversal :: "event \<Rightarrow> bool" where
  "isTraversal (CallTraverse p c) = True"
| "isTraversal ev = False"

text \<open>What the \<open>catch\<close> block of lines 251-267 writes for the error it caught.\<close>

definition catchEvents :: "'w externs \<Rightarrow> spinner \<Rightarrow> error \<Rightarrow> event list" where
  "catchEvents X sp err =
     (if nodeEnvTest X then [ConsoleLog (Plain (errorMessage err))] else []) @
     [stopEvent sp,
      ConsoleError (RedBright (failureMessage (errorPath err))),
      ConsoleError (ErrorValue err)]"

text \<open>A computation is quiet when it adds no findings report to the trace.\<close>

definition quiet :: "('w, 'a) io \<Rightarrow> bool" where
  "quiet m = (\<forall>s. reports (trace (snd (m s))) = reports (trace s))"

section \<open>The resolver and the traverser, from the specification\<close>

text \<open>
  \<open>./traverse\<close> and \<open>./cache\<close> are not among the sources. The claims about resolution
  and about the warm cache are settled on the following definitions, which follow
  sections 3, 4.2, 4.3 and 4.4 of the specification.
\<close>

text \<open>Modelled from the spec: \<open>ResolutionResult\<close> (section 3), the resolver's verdict.\<close>

datatype ResolutionResult = Resolved string | ResolvedExternal string | Unresolved string

text \<open>
  Modelled from the spec: file resolution (section 4.2, step 5) of the missing
  resolver. The path verbatim, then with each extension in order, then, for a
  directory, its \<open>index\<close> file with each extension in order; the first existing regular
  file wins.
\<close>

definition resolveFile :: "(string \<Rightarrow> bool) \<Rightarrow> (string \<Rightarrow> bool) \<Rightarrow> string list \<Rightarrow> string \<Rightarrow> string option" where
  "resolveFile isFile isDirectory exts base =
     (if isFile base then Some base
      else (case find isFile (map (\<lambda>ext. base @ ext) exts) of
              Some found \<Rightarrow> Some found
            | None \<Rightarrow>
                if isDirectory base then find isFile (map (\<lambda>ext. base @ ''/index'' @ ext) exts)
                else None))"


text \<open>
  Modelled from the spec: the alias check (section 4.2, step 1) of the missing
  resolver. A prefix matches a whole segment: \<open>@root\<close> matches \<open>@root\<close> and \<open>@root/foo\<close>, not
  \<open>@rootx\<close>.
\<close>

definition aliasMatches :: "string \<Rightarrow> string \<Rightarrow> bool" where
  "aliasMatches prefix raw = (raw = prefix \<or> take (Suc (length prefix)) raw = prefix @ ''/'')"

text \<open>Modelled from the spec: the candidates of an alias are tried in array order.\<close>

primrec firstResolved :: "(string \<Rightarrow> string option) \<Rightarrow> string list \<Rightarrow> string option" where
  "firstResolved f [] = None"
| "firstResolved f (candidate # rest) =
     (case f candidate of Some found \<Rightarrow> Some found | None \<Rightarrow> firstResolved f rest)"

text \<open>
  Modelled from the spec: each candidate is substituted for the matched prefix, and the
  first one that resolves to an existing file wins.
\<close>

definition resolveAlias ::
  "(string \<Rightarrow> bool) \<Rightarrow> (string \<Rightarrow> bool) \<Rightarrow> TraverseConfig \<Rightarrow> string \<Rightarrow> string option" where
  "resolveAlias isFile isDirectory c raw =
     (case find (\<lambda>(prefix, candidates). aliasMatches prefix raw) (aliases c) of
        None \<Rightarrow> None
      | Some (prefix, candidates) \<Rightarrow>
          firstResolved
            (\<lambda>candidate. resolveFile isFile isDirectory (extensions c) (candidate @ drop (length prefix) raw))
            candidates)"

text \<open>
  Modelled from the spec: the missing resolver \<open>resolve(rawSpecifier, importingFilePath,
  config)\<close>. The alias check comes first; \<open>otherwise\<close> stands for the later steps
  (root-relative, relative and bare specifiers).
\<close>

definition specResolve ::
  "(string \<Rightarrow> bool) \<Rightarrow> (string \<Rightarrow> bool) \<Rightarrow> (string \<Rightarrow> string \<Rightarrow> TraverseConfig \<Rightarrow> ResolutionResult) \<Rightarrow>
   string \<Rightarrow> string \<Rightarrow> TraverseConfig \<Rightarrow> ResolutionResult" where
  "specResolve isFile isDirectory otherwise raw importer c =
     (case resolveAlias isFile isDirectory c raw of
        Some found \<Rightarrow> Resolved found
      | None \<Rightarrow> otherwise raw importer c)"

text \<open>
  Modelled from the spec: \<open>CacheEntry\<close> (section 3) of the missing fingerprint cache, a
  fingerprint and the specifiers of the file (their text), keyed by the file's path.
\<close>

record 'fp CacheEntry =
  fingerprint :: 'fp
  payload :: "string list"

type_synonym 'fp Cache = "(string \<times> 'fp CacheEntry) list"

text \<open>
  Modelled from the spec: what a traversal reads and does not change, the files on
  disk, the fingerprint of a file, the specifier parser \<open>extract\<close> (section 4.1) and
  the resolver (section 4.2).
\<close>

record ('f, 'fp) Project =
  projectFiles :: "(string \<times> 'f) list"
  fingerprintOf :: "'f \<Rightarrow> 'fp"
  extractSpecifiers :: "string \<Rightarrow> 'f \<Rightarrow> error + string list"
  resolve :: "string \<Rightarrow> string \<Rightarrow> TraverseConfig \<Rightarrow> ResolutionResult"

text \<open>
  Modelled from the spec: \<open>lookup\<close> of the missing cache (section 4.3), a miss on first
  sight of a path and when the recorded fingerprint is not the file's current one.
\<close>

definition lookup :: "('f, 'fp) Project \<Rightarrow> 'fp Cache \<Rightarrow> string \<Rightarrow> 'f \<Rightarrow> 'fp CacheEntry option" where
  "lookup P cch p f =
     (case map_of cch p of
        None \<Rightarrow> None
      | Some entry \<Rightarrow> if fingerprint entry = fingerprintOf P f then Some entry else None)"

text \<open>
  Modelled from the spec: \<open>store\<close> of the missing cache (section 4.3) records the current
  fingerprint and the payload, replacing any prior entry.
\<close>

definition store :: "('f, 'fp) Project \<Rightarrow> string \<Rightarrow> 'f \<Rightarrow> string list \<Rightarrow> 'fp Cache \<Rightarrow> 'fp Cache" where
  "store P p f specs cch = AList.update p \<lparr>fingerprint = fingerprintOf P f, payload = specs\<rparr> cch"

text \<open>Modelled from the spec: \<open>purgeAll\<close> of the missing cache drops every entry.\<close>

definition purgeAll :: "'fp Cache" where
  "purgeAll = []"

text \<open>
  Modelled from the spec: how the missing traverser obtains the specifiers of a file
  (section 4.4), a cache hit, or parse and then store.
\<close>

definition specifiersOf ::
  "('f, 'fp) Project \<Rightarrow> 'fp Cache \<Rightarrow> string \<Rightarrow> 'f \<Rightarrow> (error + string list) \<times> 'fp Cache" where
  "specifiersOf P cch p f =
     (case lookup P cch p f of
        Some entry \<Rightarrow> (Inr (payload entry), cch)
      | None \<Rightarrow>
          (case extractSpecifiers P p f of
             Inl err \<Rightarrow> (Inl err, cch)
           | Inr specs \<Rightarrow> (Inr specs, store P p f specs cch)))"

text \<open>
  Modelled from the spec: one specifier of a file being processed by the missing
  traverser (section 4.4). An unresolved specifier and an external package go into the
  result's sets; a resolved path is appended to the file's imports unless it is there.
\<close>

fun recordSpecifier ::
  "('f, 'fp) Project \<Rightarrow> TraverseConfig \<Rightarrow> string \<Rightarrow> string \<Rightarrow>
   ImportEntry list \<times> TraversalResult \<Rightarrow> ImportEntry list \<times> TraversalResult" where
  "recordSpecifier P c importer raw (imps, res) =
     (case resolve P raw importer c of
        Unresolved u \<Rightarrow> (imps, res\<lparr>unresolved := setAdd u (unresolved res)\<rparr>)
      | ResolvedExternal pkg \<Rightarrow> (imps, res\<lparr>modules := setAdd pkg (modules res)\<rparr>)
      | Resolved found \<Rightarrow>
          (if found \<in> set (map path imps) then imps else imps @ [\<lparr>path = found, specifier = raw\<rparr>],
           res))"

text \<open>
  Modelled from the spec: the graph walk of the missing traverser (section 4.4), with
  the paths still to process in a queue. A path that has been visited is never
  processed again. A path that is not on disk is a mismatch of cache and reality, the
  \<open>InvalidCacheError\<close> of section 4.3; a parse error ends the walk. The walk ends because
  every processed path is a file on disk that was not visited before.
\<close>

function walk ::
  "('f, 'fp) Project \<Rightarrow> TraverseConfig \<Rightarrow> string list \<Rightarrow> string set \<Rightarrow> 'fp Cache \<Rightarrow>
   TraversalResult \<Rightarrow> (error + TraversalResult) \<times> 'fp Cache" where
  "walk P c [] visited cch res = (Inr res, cch)"
| "walk P c (p # queue) visited cch res =
     (if p \<in> visited then walk P c queue visited cch res
      else
        (case map_of (projectFiles P) p of
           None \<Rightarrow> (Inl (Error True (Some p) ''file is missing''), cch)
         | Some f \<Rightarrow>
             (case specifiersOf P cch p f of
                (Inl err, cch') \<Rightarrow> (Inl err, cch')
              | (Inr specs, cch') \<Rightarrow>
                  (case fold (recordSpecifier P c p) specs ([], res) of
                     (imps, res') \<Rightarrow>
                       walk P c (queue @ map path imps) (insert p visited) cch'
                         (res'\<lparr>files := AList.update p \<lparr>filePath = p, fileImports = imps\<rparr> (files res')\<rparr>)))))"
  by pat_completeness auto
termination
proof (relation "measures [\<lambda>(P, c, queue, visited, cch, res). card (set (map fst (projectFiles P)) - visited),
                           \<lambda>(P, c, queue, visited, cch, res). length queue]", goal_cases)
  case 1
  show ?case by simp
next
  case 2
  then show ?case by simp
next
  case (3 P c p queue visited cch res f)
  have "p \<in> fst ` set (projectFiles P)"
    using map_of_SomeD [OF 3(2)] by force
  then have "fst ` set (projectFiles P) - insert p visited \<subset> fst ` set (projectFiles P) - visited"
    using 3(1) by auto
  then have "card (fst ` set (projectFiles P) - insert p visited) < card (fst ` set (projectFiles P) - visited)"
    by (intro psubset_card_mono) auto
  then show ?case by simp
qed

text \<open>
  Modelled from the spec: \<open>traverse(entryPath, config)\<close> of the missing traverser, the
  walk from the entry with nothing visited and an empty result. The cache is handed in
  and handed back.
\<close>

definition specTraverse ::
  "('f, 'fp) Project \<Rightarrow> string \<Rightarrow> TraverseConfig \<Rightarrow> 'fp Cache \<Rightarrow> (error + TraversalResult) \<times> 'fp Cache" where
  "specTraverse P entry c cch = walk P c [entry] {} cch getResultObject"

text \<open>
  The invariant of the cache (section 3): a payload whose recorded fingerprint is the
  file's current fingerprint is what parsing the file yields.
\<close>

definition consistent :: "('f, 'fp) Project \<Rightarrow> 'fp Cache \<Rightarrow> bool" where
  "consistent P cch =
     (\<forall>p entry f. map_of cch p = Some entry \<and> map_of (projectFiles P) p = Some f
        \<and> fingerprint entry = fingerprintOf P f \<longrightarrow> extractSpecifiers P p f = Inr (payload entry))"

section \<open>The merge, as the specification words it\<close>

text \<open>
  The specification's union of import lists by resolved path in first-seen order:
  the first import of each path is kept, every later one with that path is dropped.
\<close>

fun dedupByPath :: "ImportEntry list \<Rightarrow> ImportEntry list" where
  "dedupByPath [] = []"
| "dedupByPath (x # xs) = x # dedupByPath (filter (\<lambda>y. path y \<noteq> path x) xs)"

text \<open>The file records that the entries' results hold for a path, in the order of the entries.\<close>

definition recordsFor :: "string \<Rightarrow> TraversalResult list \<Rightarrow> FileRecord list" where
  "recordsFor key results = List.map_filter (\<lambda>r. map_of (files r) key) results"

text \<open>
  The invariants of a traversal result (section 3): no file record lists a resolved
  path twice, and, \<open>files\<close> being a map, no path has two records.
\<close>

definition importsDistinct :: "TraversalResult \<Rightarrow> bool" where
  "importsDistinct r = list_all (\<lambda>(key, stat). distinct (map path (fileImports stat))) (files r)"

definition keysDistinct :: "TraversalResult \<Rightarrow> bool" where
  "keysDistinct r = distinct (map fst (files r))"

text \<open>The merge as a fold over the list of the entries' results (section 9).\<close>

definition mergeAll :: "TraversalResult list \<Rightarrow> TraversalResult" where
  "mergeAll results = foldl mergeResult getResultObject results"

text \<open>The entries' results one by one: the loop of lines 157-213 without the merge.\<close>

fun collectEntries ::
  "'w externs \<Rightarrow> (EntryConfig \<Rightarrow> Aliases \<Rightarrow> TraverseConfig) \<Rightarrow> EntryConfig list \<Rightarrow>
   ('w, TraversalResult list) io" where
  "collectEntries X mk [] = ret []"
| "collectEntries X mk (entry # rest) =
     bnd (traverseEntry X mk entry) (\<lambda>subResult.
     bnd (collectEntries X mk rest) (\<lambda>subResults. ret (subResult # subResults)))"

text \<open>What lines 204-211 make of the record \<open>prev\<close> when \<open>stat\<close> comes for the same path.\<close>

definition mergeRecord :: "FileRecord \<Rightarrow> FileRecord \<Rightarrow> FileRecord" where
  "mergeRecord prev stat =
     prev\<lparr>fileImports := pushNew (fileImports prev) (set (map path (fileImports prev))) (fileImports stat)\<rparr>"

text \<open>
  The record the specification expects for a path: the first record seen, with the
  union of all import lists for the path.
\<close>

fun combine :: "FileRecord option \<Rightarrow> FileRecord list \<Rightarrow> FileRecord option" where
  "combine None [] = None"
| "combine None (stat # stats) =
     Some (stat\<lparr>fileImports := dedupByPath (concat (map fileImports (stat # stats)))\<rparr>)"
| "combine (Some prev) stats =
     Some (prev\<lparr>fileImports := dedupByPath (fileImports prev @ concat (map fileImports stats))\<rparr>)"

section \<open>A concrete project, to run the definitions on\<close>

text \<open>
  A project in the shape of the test \<open>supports extension overrides per entry point\<close>:
  one entry file, configured twice, for the client with the extension \<open>.client.js\<close>
  and for the server with \<open>.server.js\<close>. The world is a number: \<open>0\<close> is a cache that
  no longer matches the files, so that \<open>traverse\<close> fails with an \<open>InvalidCacheError\<close>;
  purging makes it \<open>1\<close>, and every successful traversal counts it up.
\<close>

definition demoImport :: "string \<Rightarrow> string \<Rightarrow> ImportEntry" where
  "demoImport p raw = \<lparr>path = p, specifier = raw\<rparr>"

definition clientResult :: TraversalResult where
  "clientResult =
     \<lparr>files =
        [(''/project/src/entry.js'',
          \<lparr>filePath = ''/project/src/entry.js'',
           fileImports = [demoImport ''/project/src/config.client.js'' ''./config'']\<rparr>),
         (''/project/src/config.client.js'',
          \<lparr>filePath = ''/project/src/config.client.js'',
           fileImports = [demoImport ''/project/src/shared.js'' ''./shared'']\<rparr>),
         (''/project/src/shared.js'', \<lparr>filePath = ''/project/src/shared.js'', fileImports = []\<rparr>)],
      modules = [''@test/client'', ''react''],
      unresolved = [''./missing'']\<rparr>"

definition serverResult :: TraversalResult where
  "serverResult =
     \<lparr>files =
        [(''/project/src/entry.js'',
          \<lparr>filePath = ''/project/src/entry.js'',
           fileImports = [demoImport ''/project/src/config.server.js'' ''./config'']\<rparr>),
         (''/project/src/config.server.js'',
          \<lparr>filePath = ''/project/src/config.server.js'',
           fileImports = [demoImport ''/project/src/shared.js'' ''./shared'']\<rparr>),
         (''/project/src/shared.js'', \<lparr>filePath = ''/project/src/shared.js'', fileImports = []\<rparr>)],
      modules = [''@test/server'', ''react''],
      unresolved = [''./missing'']\<rparr>"

definition demoTraverse :: "string \<Rightarrow> TraverseConfig \<Rightarrow> nat \<Rightarrow> (error + TraversalResult) \<times> nat" where
  "demoTraverse p c w =
     (if w = 0 then (Inl (Error True (Some p) ''the cache names a deleted file''), w)
      else if extensions c = [''.client.js''] then (Inr clientResult, Suc w)
      else (Inr serverResult, Suc w))"

definition clientEntry :: EntryConfig where
  "clientEntry =
     \<lparr>entryFile = ''src/entry.js'', label = Some ''client'', entryExtensions = [''.client.js''],
      entryAliases = [(''create-api'', [''/project/src/api/create-api-client.js''])]\<rparr>"

definition serverEntry :: EntryConfig where
  "serverEntry =
     \<lparr>entryFile = ''src/entry.js'', label = Some ''server'', entryExtensions = [''.server.js''],
      entryAliases = [(''create-api'', [''/project/src/api/create-api-server.js''])]\<rparr>"

definition demoConfig :: Config where
  "demoConfig =
     \<lparr>configFlow = None, configModuleDirectory = None, ignorePatterns = [''**/node_modules/**''],
      ignoreUnimported = [], ignoreUnused = [], ignoreUnresolved = [],
      entryFiles = [clientEntry, serverEntry], preset = None, configExtensions = [''.js'']\<rparr>"

definition demoProjectPkg :: PkgUp where
  "demoProjectPkg = \<lparr>pkgPath = ''/project/package.json'', pkgVersion = ''0.1.0''\<rparr>"

definition demoOwnPkg :: PkgUp where
  "demoOwnPkg = \<lparr>pkgPath = ''/opt/unimported/package.json'', pkgVersion = ''1.0.0''\<rparr>"

definition demoDependencies :: Dependencies where
  "demoDependencies = [(''@test/client'', ''1''), (''@test/server'', ''1''), (''react'', ''17'')]"

definition demoExterns :: "nat externs" where
  "demoExterns =
     \<lparr>moduleDir = ''/opt/unimported/dist'',
      nodeEnvTest = True,
      logEnabled = False,
      readPkgUp = (\<lambda>dir w. Inr (if dir = ''/project'' \<or> dir = ''/project/src'' then Some demoProjectPkg
                               else if dir = ''/opt/unimported/dist'' then Some demoOwnPkg
                               else None)),
      pathDirname = (\<lambda>p. rev (drop 1 (dropWhile (\<lambda>ch. ch \<noteq> CHR ''/'') (rev p)))),
      pathResolve = (\<lambda>dir p. if take 1 p = ''/'' then p else dir @ ''/'' @ p),
      pathJoin = (\<lambda>a b. a @ ''/'' @ b),
      getConfig = (\<lambda>w. Inr demoConfig),
      getDependencies = (\<lambda>dir w. Inr demoDependencies),
      getPeerDependencies = (\<lambda>dir w. Inr []),
      writeConfig = (\<lambda>lists w. (Inr (), w)),
      gitStatusNotAdded = (\<lambda>dir w. Inr []),
      getAliases = (\<lambda>entry w. Inr (entryAliases entry)),
      getCacheIdentity = (\<lambda>dir entry. dir @ ''/'' @ entryFile entry @ ''#'' @ (case label entry of None \<Rightarrow> [] | Some l \<Rightarrow> l)),
      traverse = demoTraverse,
      purgeCache = (\<lambda>w. 1),
      storeCache = (\<lambda>w. w),
      fsExists = (\<lambda>name dir w. Inr True),
      fsList = (\<lambda>pattern dir exts ignored w. Inr [dir @ ''/entry.js'', dir @ ''/unused.js'']),
      processResults = (\<lambda>listed r context w.
         Inr \<lparr>unimported = [''src/unused.js''], unresolvedImports = unresolved r, unused = [],
              clean = False\<rparr>),
      updateAllowLists = (\<lambda>result context w. (Inr (), w))\<rparr>"

text \<open>The same project with a source file that does not parse.\<close>

definition brokenExterns :: "nat externs" where
  "brokenExterns =
     demoExterns\<lparr>traverse := (\<lambda>p c w. (Inl (Error False (Some p) ''Unexpected token''), w))\<rparr>"

definition demoArgs :: CliArguments where
  "demoArgs =
     \<lparr>flow = False, update = False, init = False, ignoreUntracked = False, clearCache = False,
      cache = True, cwd = None\<rparr>"

definition demoStart :: "nat \<Rightarrow> string \<Rightarrow> nat state" where
  "demoStart w dir = \<lparr>world = w, processCwd = dir, trace = []\<rparr>"

text \<open>The configuration that \<open>main\<close> builds for an entry of this project.\<close>

definition demoTraverseConfig :: "EntryConfig \<Rightarrow> Aliases \<Rightarrow> TraverseConfig" where
  "demoTraverseConfig =
     traverseConfigOf demoExterns demoArgs demoConfig [''node_modules''] demoDependencies ''/project''"









definition noDirectory :: "string \<Rightarrow> bool" where
  "noDirectory p = False"


text \<open>
  A project for the traverser: three files that import each other in a cycle, a
  package and a specifier that resolves to nothing. A file is the list of its
  specifiers, its fingerprint its size.
\<close>

definition demoSources :: "(string \<times> string list) list" where
  "demoSources =
     [(''/project/index.js'', [''./foo'', ''./bar'', ''react'', ''./foo'']),
      (''/project/foo.js'', [''./bar'', ''./gone'']),
      (''/project/bar.js'', [''./index''])]"

definition demoIsFile :: "string \<Rightarrow> bool" where
  "demoIsFile p = (p \<in> set (map fst demoSources))"

definition demoOtherwise :: "string \<Rightarrow> string \<Rightarrow> TraverseConfig \<Rightarrow> ResolutionResult" where
  "demoOtherwise raw importer c =
     (if take 2 raw = ''./'' then
        (case resolveFile demoIsFile noDirectory (extensions c) (''/project/'' @ drop 2 raw) of
           Some found \<Rightarrow> Resolved found
         | None \<Rightarrow> Unresolved raw)
      else if raw \<in> set (map fst (dependencies c)) then ResolvedExternal raw
      else Unresolved raw)"

definition demoProject :: "(string list, nat) Project" where
  "demoProject =
     \<lparr>projectFiles = demoSources,
      fingerprintOf = length,
      extractSpecifiers = (\<lambda>p f. if ''not valid'' \<in> set f then Inl (Error False (Some p) ''Unexpected token'')
                                  else Inr f),
      resolve = specResolve demoIsFile noDirectory demoOtherwise\<rparr>"

definition plainConfig :: TraverseConfig where
  "plainConfig =
     \<lparr>extensions = [''.js''], aliases = [], cacheId = None, traverseFlow = False,
      moduleDirectory = [''node_modules''], traversePreset = None, dependencies = [(''react'', ''17'')]\<rparr>"

text \<open>What the demonstration runs start from and pass around.\<close>

definition demoEntryPath :: string where
  "demoEntryPath = ''/project/src/entry.js''"

definition clientConfig :: TraverseConfig where
  "clientConfig = demoTraverseConfig clientEntry (entryAliases clientEntry)"

definition serverConfig :: TraverseConfig where
  "serverConfig = demoTraverseConfig serverEntry (entryAliases serverEntry)"

definition demoContext :: "CliArguments \<Rightarrow> Context" where
  "demoContext args =
     \<lparr>version = ''1.0.0'', contextDependencies = demoDependencies, peerDependencies = [],
      config = demoConfig, contextModuleDirectory = [''node_modules''], contextArgs = args,
      contextCwd = ''/project''\<rparr>"

text \<open>The same project when purging does not help: the cache stays out of step.\<close>

definition staleExterns :: "nat externs" where
  "staleExterns = demoExterns\<lparr>purgeCache := (\<lambda>w. 0)\<rparr>"

text \<open>What the traversal of this project from \<open>index.js\<close> yields.\<close>

definition demoWalkResult :: TraversalResult where
  "demoWalkResult =
     \<lparr>files =
        [(''/project/index.js'',
          \<lparr>filePath = ''/project/index.js'',
           fileImports = [demoImport ''/project/foo.js'' ''./foo'', demoImport ''/project/bar.js'' ''./bar'']\<rparr>),
         (''/project/foo.js'',
          \<lparr>filePath = ''/project/foo.js'', fileImports = [demoImport ''/project/bar.js'' ''./bar'']\<rparr>),
         (''/project/bar.js'',
          \<lparr>filePath = ''/project/bar.js'', fileImports = [demoImport ''/project/index.js'' ''./index'']\<rparr>)],
      modules = [''react''],
      unresolved = [''./gone'']\<rparr>"

definition demoWarmCache :: "nat Cache" where
  "demoWarmCache =
     [(''/project/index.js'', \<lparr>fingerprint = 4, payload = [''./foo'', ''./bar'', ''react'', ''./foo'']\<rparr>),
      (''/project/foo.js'', \<lparr>fingerprint = 2, payload = [''./bar'', ''./gone'']\<rparr>),
      (''/project/bar.js'', \<lparr>fingerprint = 1, payload = [''./index'']\<rparr>)]"

text \<open>
  A project for a whole run with the traverser of the specification: the entry file is
  traversed for the client and for the server, \<open>./config\<close> resolves by the entry's
  extensions and \<open>./shared\<close> to the same file under both. A file is the list of its
  specifiers, its fingerprint its size; the world is the cache.
\<close>

definition splitSources :: "(string \<times> string list) list" where
  "splitSources =
     [(''/project/src/entry.js'', [''./config'', ''./shared'', ''./config'']),
      (''/project/src/config.client.js'', [''@test/client'', ''./shared'']),
      (''/project/src/config.server.js'', [''@test/server'', ''./shared'']),
      (''/project/src/shared.js'', [])]"

definition splitIsFile :: "string \<Rightarrow> bool" where
  "splitIsFile p = (p \<in> set (map fst splitSources))"

definition splitOtherwise :: "string \<Rightarrow> string \<Rightarrow> TraverseConfig \<Rightarrow> ResolutionResult" where
  "splitOtherwise raw importer c =
     (if take 2 raw = ''./'' then
        (case resolveFile splitIsFile noDirectory (extensions c) (''/project/src/'' @ drop 2 raw) of
           Some found \<Rightarrow> Resolved found
         | None \<Rightarrow> Unresolved raw)
      else if raw \<in> set (map fst (dependencies c)) then ResolvedExternal raw
      else Unresolved raw)"

definition splitProject :: "(string list, nat) Project" where
  "splitProject =
     \<lparr>projectFiles = splitSources,
      fingerprintOf = length,
      extractSpecifiers = (\<lambda>p f. Inr f),
      resolve = specResolve splitIsFile noDirectory splitOtherwise\<rparr>"

definition splitClient :: EntryConfig where
  "splitClient =
     \<lparr>entryFile = ''src/entry.js'', label = Some ''client'', entryExtensions = [''.client.js'', ''.js''],
      entryAliases = []\<rparr>"

definition splitServer :: EntryConfig where
  "splitServer =
     \<lparr>entryFile = ''src/entry.js'', label = Some ''server'', entryExtensions = [''.server.js'', ''.js''],
      entryAliases = []\<rparr>"

definition splitExterns :: "nat Cache externs" where
  "splitExterns =
     \<lparr>moduleDir = ''/opt/unimported/dist'',
      nodeEnvTest = True,
      logEnabled = False,
      readPkgUp = (\<lambda>dir w. Inr (if dir = ''/project'' then Some demoProjectPkg
                               else if dir = ''/opt/unimported/dist'' then Some demoOwnPkg
                               else None)),
      pathDirname = (\<lambda>p. rev (drop 1 (dropWhile (\<lambda>ch. ch \<noteq> CHR ''/'') (rev p)))),
      pathResolve = (\<lambda>dir p. if take 1 p = ''/'' then p else dir @ ''/'' @ p),
      pathJoin = (\<lambda>a b. a @ ''/'' @ b),
      getConfig = (\<lambda>w. Inr (demoConfig\<lparr>entryFiles := [splitClient, splitServer]\<rparr>)),
      getDependencies = (\<lambda>dir w. Inr demoDependencies),
      getPeerDependencies = (\<lambda>dir w. Inr []),
      writeConfig = (\<lambda>ignored w. (Inr (), w)),
      gitStatusNotAdded = (\<lambda>dir w. Inr []),
      getAliases = (\<lambda>entry w. Inr (entryAliases entry)),
      getCacheIdentity = (\<lambda>dir entry. dir @ ''/'' @ entryFile entry),
      traverse = specTraverse splitProject,
      purgeCache = (\<lambda>w. purgeAll),
      storeCache = (\<lambda>w. w),
      fsExists = (\<lambda>name dir w. Inr True),
      fsList = (\<lambda>pattern dir exts ignored w. Inr (map fst splitSources)),
      processResults = (\<lambda>listed r context w.
         Inr \<lparr>unimported = [], unresolvedImports = unresolved r, unused = [], clean = True\<rparr>),
      updateAllowLists = (\<lambda>result context w. (Inr (), w))\<rparr>"

definition splitTraverseConfig :: "EntryConfig \<Rightarrow> Aliases \<Rightarrow> TraverseConfig" where
  "splitTraverseConfig =
     traverseConfigOf splitExterns demoArgs demoConfig [''node_modules''] demoDependencies ''/project''"

definition splitStart :: "nat Cache state" where
  "splitStart = \<lparr>world = purgeAll, processCwd = ''/project'', trace = []\<rparr>"

text \<open>What the two traversals of this project yield, and the merge of the two.\<close>

definition splitClientResult :: TraversalResult where
  "splitClientResult =
     \<lparr>files =
        [(''/project/src/entry.js'',
          \<lparr>filePath = ''/project/src/entry.js'',
           fileImports = [demoImport ''/project/src/config.client.js'' ''./config'',
                          demoImport ''/project/src/shared.js'' ''./shared'']\<rparr>),
         (''/project/src/config.client.js'',
          \<lparr>filePath = ''/project/src/config.client.js'',
           fileImports = [demoImport ''/project/src/shared.js'' ''./shared'']\<rparr>),
         (''/project/src/shared.js'', \<lparr>filePath = ''/project/src/shared.js'', fileImports = []\<rparr>)],
      modules = [''@test/client''],
      unresolved = []\<rparr>"

definition splitServerResult :: TraversalResult where
  "splitServerResult =
     \<lparr>files =
        [(''/project/src/entry.js'',
          \<lparr>filePath = ''/project/src/entry.js'',
           fileImports = [demoImport ''/project/src/config.server.js'' ''./config'',
                          demoImport ''/project/src/shared.js'' ''./shared'']\<rparr>),
         (''/project/src/config.server.js'',
          \<lparr>filePath = ''/project/src/config.server.js'',
           fileImports = [demoImport ''/project/src/shared.js'' ''./shared'']\<rparr>),
         (''/project/src/shared.js'', \<lparr>filePath = ''/project/src/shared.js'', fileImports = []\<rparr>)],
      modules = [''@test/server''],
      unresolved = []\<rparr>"

definition splitMerged :: TraversalResult where
  "splitMerged =
     \<lparr>files =
        [(''/project/src/config.client.js'',
          \<lparr>filePath = ''/project/src/config.client.js'',
           fileImports = [demoImport ''/project/src/shared.js'' ''./shared'']\<rparr>),
         (''/project/src/entry.js'',
          \<lparr>filePath = ''/project/src/entry.js'',
           fileImports = [demoImport ''/project/src/config.client.js'' ''./config'',
                          demoImport ''/project/src/shared.js'' ''./shared'',
                          demoImport ''/project/src/config.server.js'' ''./config'']\<rparr>),
         (''/project/src/shared.js'', \<lparr>filePath = ''/project/src/shared.js'', fileImports = []\<rparr>),
         (''/project/src/config.server.js'',
          \<lparr>filePath = ''/project/src/config.server.js'',
           fileImports = [demoImport ''/project/src/shared.js'' ''./shared'']\<rparr>)],
      modules = [''@test/client'', ''@test/server''],
      unresolved = []\<rparr>"

section \<open>Properties\<close>


subsection \<open>Steps of a computation\<close>

lemma bnd_Normal: "m s = (Normal x, s') \<Longrightarrow> bnd m f s = f x s'"
  and bnd_Thrown: "m s = (Thrown e, s') \<Longrightarrow> bnd m f s = (Thrown e, s')"
  and bnd_Exited: "m s = (Exited code, s') \<Longrightarrow> bnd m f s = (Exited code, s')"
  by (simp_all add: bnd_def)

lemma bnd_ret [simp]: "bnd (ret x) f s = f x s"
  by (simp add: bnd_def ret_def)

lemma bnd_emit [simp]: "bnd (emit ev) f s = f () (s\<lparr>trace := trace s @ [ev]\<rparr>)"
  by (simp add: bnd_def emit_def)

lemma bnd_getCwd [simp]: "bnd getCwd f s = f (processCwd s) s"
  by (simp add: bnd_def getCwd_def)

lemma tryCatch_Normal: "m s = (Normal x, s') \<Longrightarrow> tryCatch m h s = (Normal x, s')"
  and tryCatch_Thrown: "m s = (Thrown e, s') \<Longrightarrow> tryCatch m h s = h e s'"
  and tryCatch_Exited: "m s = (Exited code, s') \<Longrightarrow> tryCatch m h s = (Exited code, s')"
  by (simp_all add: tryCatch_def)

lemma bnd_reading_Inr: "f (world s) = Inr x \<Longrightarrow> bnd (reading f) k s = k x s"
  and bnd_reading_Inl: "f (world s) = Inl e \<Longrightarrow> bnd (reading f) k s = (Thrown e, s)"
  by (simp_all add: bnd_def reading_def)

lemma bnd_assoc: "bnd (bnd m f) g = bnd m (\<lambda>x. bnd (f x) g)"
  by (rule ext) (simp add: bnd_def split: prod.splits completion.splits)

lemma bnd_processExit [simp]: "bnd (processExit code) k s = (Exited code, s)"
  by (simp add: bnd_def processExit_def)

lemma bnd_throw [simp]: "bnd (throw e) k s = (Thrown e, s)"
  by (simp add: bnd_def throw_def)

lemma bnd_acting_Inr:
  "f (world s) = (Inr x, w) \<Longrightarrow> bnd (acting ev f) k s = k x (s\<lparr>world := w, trace := trace s @ [ev]\<rparr>)"
  and bnd_acting_Inl:
  "f (world s) = (Inl e, w) \<Longrightarrow> bnd (acting ev f) k s = (Thrown e, s\<lparr>world := w, trace := trace s @ [ev]\<rparr>)"
  by (simp_all add: bnd_def acting_def)

lemma bnd_callStoreCache [simp]:
  "bnd (callStoreCache X) k s = k () (s\<lparr>world := storeCache X (world s), trace := trace s @ [CallStoreCache]\<rparr>)"
  by (simp add: callStoreCache_def bnd_acting_Inr)

lemma bnd_callPurgeCache [simp]:
  "bnd (callPurgeCache X) k s = k () (s\<lparr>world := purgeCache X (world s), trace := trace s @ [CallPurgeCache]\<rparr>)"
  by (simp add: callPurgeCache_def bnd_acting_Inr)

subsection \<open>The pieces of \<open>main\<close>\<close>

lemma noPackageJson_run:
  "noPackageJson s =
     (Exited 1, s\<lparr>trace := trace s @
        [ConsoleError (RedBright ''could not resolve package.json, are you in a node project?'')]\<rparr>)"
  by (simp add: noPackageJson_def processExit_def)

lemma makeSpinner_run:
  "makeSpinner X s =
     (Normal (spinnerOf X),
      s\<lparr>trace := trace s @ (if logEnabled X \<or> nodeEnvTest X then [] else [OraStart ''initializing''])\<rparr>)"
  by (simp add: makeSpinner_def spinnerOf_def ret_def)

lemma mainCatch_run:
  "mainCatch X sp err s = (Exited 1, s\<lparr>trace := trace s @ catchEvents X sp err\<rparr>)"
  by (simp add: mainCatch_def catchEvents_def spinnerStop_def processExit_def)

lemma main_enters:
  assumes "entersProject X args s pp up"
  shows "main X args s =
     tryCatch (mainTry X args up (projectDir X pp) (spinnerOf X)) (mainCatch X (spinnerOf X)) (atTry X pp s)"
  using assms
  by (simp add: main_def entersProject_def reading_def bnd_def getCwd_def mainInProject_def chdir_def
      makeSpinner_run atTry_def projectDir_def)

lemma traverseWithRetry_first_ok:
  assumes "traverse X p c (world s) = (Inr r1, w1)"
  shows "traverseWithRetry X p c s =
     callTraverse X p c (s\<lparr>world := w1, trace := trace s @ [CallTraverse p c]\<rparr>)"
  using assms
  by (simp add: traverseWithRetry_def bnd_def tryCatch_def callTraverse_def acting_def ret_def)

lemma traverseWithRetry_invalid_cache:
  assumes "traverse X p c (world s) = (Inl e, w1)" "isInvalidCacheError e"
  shows "traverseWithRetry X p c s =
     callTraverse X p c
       (s\<lparr>world := purgeCache X w1, trace := trace s @ [CallTraverse p c, CallPurgeCache]\<rparr>)"
  using assms
  by (simp add: traverseWithRetry_def bnd_def tryCatch_def callTraverse_def acting_def ret_def
      callPurgeCache_def)

lemma traverseWithRetry_other_error:
  assumes "traverse X p c (world s) = (Inl e, w1)" "\<not> isInvalidCacheError e"
  shows "traverseWithRetry X p c s =
     (Thrown e, s\<lparr>world := w1, trace := trace s @ [CallTraverse p c]\<rparr>)"
  using assms
  by (simp add: traverseWithRetry_def bnd_def tryCatch_def callTraverse_def acting_def ret_def
      throw_def)

lemma traverseEntry_run:
  assumes "getAliases X entry (world s) = Inr als"
  shows "traverseEntry X mk entry s =
     traverseWithRetry X (pathResolve X (processCwd s) (entryFile entry)) (mk entry als)
       (s\<lparr>trace := trace s @ [LogStartTraversal entry]\<rparr>)"
  using assms by (simp add: traverseEntry_def bnd_reading_Inr)

lemma traverseEntry_twice:
  assumes "getAliases X entry (world s) = Inr als"
    and "p = pathResolve X (processCwd s) (entryFile entry)"
    and "c = mk entry als"
    and "traverse X p c (world s) = (Inr ra, wa)"
    and "traverse X p c wa = (Inr rb, wb)"
  shows "traverseEntry X mk entry s =
     (Normal rb,
      s\<lparr>world := wb, trace := trace s @ [LogStartTraversal entry, CallTraverse p c, CallTraverse p c]\<rparr>)"
  using assms
  by (simp add: traverseEntry_run traverseWithRetry_first_ok callTraverse_def acting_def)

lemma traverseEntry_fails:
  assumes "getAliases X entry (world s) = Inr als"
    and "p = pathResolve X (processCwd s) (entryFile entry)"
    and "c = mk entry als"
    and "traverse X p c (world s) = (Inl e, wa)"
    and "\<not> isInvalidCacheError e"
  shows "traverseEntry X mk entry s =
     (Thrown e, s\<lparr>world := wa, trace := trace s @ [LogStartTraversal entry, CallTraverse p c]\<rparr>)"
  using assms
  by (simp add: traverseEntry_run traverseWithRetry_other_error)

lemma traverseEntries_Cons_Normal:
  "traverseEntry X mk entry s = (Normal r, s') \<Longrightarrow>
   traverseEntries X mk (entry # rest) acc s = traverseEntries X mk rest (mergeResult acc r) s'"
  by (simp add: bnd_def)

lemma traverseEntries_Cons_Thrown:
  "traverseEntry X mk entry s = (Thrown e, s') \<Longrightarrow>
   traverseEntries X mk (entry # rest) acc s = (Thrown e, s')"
  by (simp add: bnd_def)

lemma traverseEntries_Nil: "traverseEntries X mk [] acc s = (Normal acc, s)"
  by (simp add: ret_def)

lemma mainTraversal_run:
  "mainTraversal X args cfg deps modDirs dir sp s =
     traverseEntries X (traverseConfigOf X args cfg modDirs deps dir) (entryFiles cfg) getResultObject
       (s\<lparr>trace := trace s @ [textEvent sp ''resolving imports'']\<rparr>)"
  by (simp add: mainTraversal_def spinnerText_def)

lemma mainSetup_args:
  assumes "mainSetup X args0 up dir sp s = (Normal (args, cfg, deps, modDirs, ctx), s1)"
  shows "update args = update args0 \<and> cache args = cache args0 \<and> contextArgs ctx = args \<and> config ctx = cfg"
  using assms
  unfolding mainSetup_def
  by (auto simp: bnd_def reading_def ret_def acting_def spinnerStop_def emit_def processExit_def
      split: sum.splits prod.splits if_splits completion.splits)

lemma mainTry_traversal_throws:
  assumes "mainSetup X args0 up dir sp s = (Normal (args, cfg, deps, modDirs, ctx), s1)"
    and "mainTraversal X args cfg deps modDirs dir sp s1 = (Thrown e, s2)"
  shows "mainTry X args0 up dir sp s = (Thrown e, s2)"
  using assms by (simp add: mainTry_def bnd_def)

lemma mainTry_after_traversal:
  assumes "mainSetup X args0 up dir sp s = (Normal (args, cfg, deps, modDirs, ctx), s1)"
    and "mainTraversal X args cfg deps modDirs dir sp s1 = (Normal tr, s2)"
  shows "mainTry X args0 up dir sp s = afterTraversal X args cfg ctx dir sp tr s2"
  using assms by (simp add: mainTry_def bnd_def)

subsection \<open>Computations that print no report\<close>

lemma reports_append [simp]: "reports (xs @ ys) = reports xs @ reports ys"
  by (simp add: reports_def)

lemma reports_Nil [simp]: "reports [] = []"
  by (simp add: reports_def)

lemma reports_Cons [simp]: "reports (ev # evs) = (if isReport ev then ev # reports evs else reports evs)"
  by (simp add: reports_def)

lemma quietI: "(\<And>s. reports (trace (snd (m s))) = reports (trace s)) \<Longrightarrow> quiet m"
  by (simp add: quiet_def)

lemma quietD: "quiet m \<Longrightarrow> m s = (c, s') \<Longrightarrow> reports (trace s') = reports (trace s)"
  by (metis quiet_def snd_conv)

lemma quiet_ret [simp]: "quiet (ret x)"
  and quiet_throw [simp]: "quiet (throw e)"
  and quiet_processExit [simp]: "quiet (processExit code)"
  and quiet_getCwd [simp]: "quiet getCwd"
  and quiet_reading [simp]: "quiet (reading f)"
  by (simp_all add: quiet_def ret_def throw_def processExit_def getCwd_def reading_def split: sum.splits)

lemma quiet_emit: "\<not> isReport ev \<Longrightarrow> quiet (emit ev)"
  by (simp add: quiet_def emit_def)

lemma quiet_acting: "\<not> isReport ev \<Longrightarrow> quiet (acting ev f)"
  by (simp add: quiet_def acting_def split: prod.splits sum.splits)

lemma quiet_bnd: "quiet m \<Longrightarrow> (\<And>x. quiet (f x)) \<Longrightarrow> quiet (bnd m f)"
  unfolding quiet_def bnd_def
  by (auto split: prod.splits completion.splits) (metis snd_conv)+

lemma quiet_tryCatch: "quiet m \<Longrightarrow> (\<And>e. quiet (h e)) \<Longrightarrow> quiet (tryCatch m h)"
  unfolding quiet_def tryCatch_def
  by (auto split: prod.splits completion.splits) (metis snd_conv)+

lemma quiet_if: "quiet a \<Longrightarrow> quiet b \<Longrightarrow> quiet (if c then a else b)"
  by simp

lemma quiet_spinner [simp]: "quiet (spinnerText sp msg)" "quiet (spinnerStop sp)"
  by (cases sp; simp add: spinnerText_def spinnerStop_def quiet_emit)+

lemma quiet_calls [simp]: "quiet (callTraverse X p c)" "quiet (callPurgeCache X)" "quiet (callStoreCache X)"
  by (simp_all add: callTraverse_def callPurgeCache_def callStoreCache_def quiet_acting)

lemma quiet_traverseWithRetry [simp]: "quiet (traverseWithRetry X p c)"
  unfolding traverseWithRetry_def
  by (intro quiet_bnd quiet_tryCatch quiet_if) simp_all

lemma quiet_traverseEntry [simp]: "quiet (traverseEntry X mk entry)"
  unfolding traverseEntry_def
  by (intro quiet_bnd quiet_emit) simp_all

lemma quiet_traverseEntries [simp]: "quiet (traverseEntries X mk es acc)"
  by (induction es arbitrary: acc) (simp_all add: quiet_bnd)

lemma quiet_mainTraversal [simp]: "quiet (mainTraversal X args cfg deps modDirs dir sp)"
  unfolding mainTraversal_def by (intro quiet_bnd) simp_all

lemma quiet_mainSetup [simp]: "quiet (mainSetup X args0 up dir sp)"
  unfolding mainSetup_def
  by (intro quiet_bnd quiet_if quiet_acting) simp_all

lemma reports_catchEvents [simp]: "reports (catchEvents X sp e) = []"
  by (cases sp) (simp_all add: catchEvents_def)

lemma reports_atTry [simp]: "reports (trace (atTry X pp s)) = reports (trace s)"
  by (simp add: atTry_def)

subsection \<open>The merge\<close>

lemma set_setAdd [simp]: "set (setAdd x xs) = insert x (set xs)"
  by (auto simp: setAdd_def)

lemma distinct_setAdd [simp]: "distinct (setAdd x xs) = distinct xs"
  by (simp add: setAdd_def)

lemma set_fold_setAdd [simp]: "set (fold setAdd ys xs) = set xs \<union> set ys"
  by (induction ys arbitrary: xs) auto

lemma distinct_fold_setAdd [simp]: "distinct (fold setAdd ys xs) = distinct xs"
  by (induction ys arbitrary: xs) auto

lemma set_dedupByPath: "path ` set (dedupByPath xs) = path ` set xs"
proof (induction xs rule: dedupByPath.induct)
  case 1
  then show ?case by simp
next
  case (2 x xs)
  then show ?case by auto
qed

lemma dedupByPath_subset: "set (dedupByPath xs) \<subseteq> set xs"
  by (induction xs rule: dedupByPath.induct) auto

lemma distinct_dedupByPath: "distinct (map path (dedupByPath xs))"
proof (induction xs rule: dedupByPath.induct)
  case 1
  then show ?case by simp
next
  case (2 x xs)
  have "path x \<notin> path ` set (dedupByPath (filter (\<lambda>y. path y \<noteq> path x) xs))"
    using dedupByPath_subset [of "filter (\<lambda>y. path y \<noteq> path x) xs"] by auto
  then show ?case using 2 by simp
qed

lemma dedupByPath_id: "distinct (map path xs) \<Longrightarrow> dedupByPath xs = xs"
proof (induction xs)
  case Nil
  then show ?case by simp
next
  case (Cons x xs)
  from Cons.prems have "filter (\<lambda>y. path y \<noteq> path x) xs = xs"
    by (simp add: filter_id_conv) (metis image_eqI)
  then show ?case using Cons by simp
qed

lemma pushNew_dedup:
  "pushNew prev added xs = prev @ dedupByPath (filter (\<lambda>x. path x \<notin> added) xs)"
proof (induction xs arbitrary: prev added)
  case Nil
  then show ?case by simp
next
  case (Cons x xs)
  show ?case
  proof (cases "path x \<in> added")
    case True
    then show ?thesis using Cons by simp
  next
    case False
    have "filter (\<lambda>y. path y \<noteq> path x) (filter (\<lambda>y. path y \<notin> added) xs)
        = filter (\<lambda>y. path y \<notin> insert (path x) added) xs"
      by (induction xs) auto
    then show ?thesis using False Cons by simp
  qed
qed

lemma dedupByPath_append:
  assumes "distinct (map path prev)"
  shows "dedupByPath (prev @ xs) = prev @ dedupByPath (filter (\<lambda>x. path x \<notin> set (map path prev)) xs)"
  using assms
proof (induction prev arbitrary: xs)
  case Nil
  then show ?case by simp
next
  case (Cons p prev)
  from Cons.prems have keep: "filter (\<lambda>y. path y \<noteq> path p) prev = prev"
    by (simp add: filter_id_conv) (metis image_eqI)
  have "filter (\<lambda>x. path x \<notin> set (map path prev)) (filter (\<lambda>y. path y \<noteq> path p) xs)
      = filter (\<lambda>x. path x \<notin> set (map path (p # prev))) xs"
    by (induction xs) auto
  then show ?case using Cons keep by simp
qed

lemma pushNew_spec:
  assumes "distinct (map path prev)"
  shows "pushNew prev (path ` set prev) xs = dedupByPath (prev @ xs)"
  using assms by (simp add: pushNew_dedup dedupByPath_append)

lemma dedupByPath_dedup_append: "dedupByPath (dedupByPath xs @ ys) = dedupByPath (xs @ ys)"
proof -
  have "dedupByPath (dedupByPath xs @ ys)
      = dedupByPath xs @ dedupByPath (filter (\<lambda>x. path x \<notin> set (map path (dedupByPath xs))) ys)"
    by (rule dedupByPath_append) (rule distinct_dedupByPath)
  also have "set (map path (dedupByPath xs)) = set (map path xs)"
    using set_dedupByPath [of xs] by simp
  finally have l: "dedupByPath (dedupByPath xs @ ys)
      = dedupByPath xs @ dedupByPath (filter (\<lambda>x. path x \<notin> set (map path xs)) ys)" .
  have "dedupByPath (xs @ ys) = dedupByPath xs @ dedupByPath (filter (\<lambda>x. path x \<notin> set (map path xs)) ys)"
  proof (induction xs arbitrary: ys rule: dedupByPath.induct)
    case 1
    then show ?case by simp
  next
    case (2 x xs)
    have "filter (\<lambda>y. path y \<notin> set (map path (filter (\<lambda>y. path y \<noteq> path x) xs)))
            (filter (\<lambda>y. path y \<noteq> path x) ys)
        = filter (\<lambda>y. path y \<notin> set (map path (x # xs))) ys"
      by (induction ys) auto
    then show ?case using 2 [of "filter (\<lambda>y. path y \<noteq> path x) ys"] by simp
  qed
  with l show ?thesis by simp
qed

lemma map_of_sortFiles: "distinct (map fst xs) \<Longrightarrow> map_of (sortFiles xs) = map_of xs"
  unfolding sortFiles_def
  by (intro map_of_inject_set [THEN iffD2]) (simp_all add: distinct_map)

lemma distinct_sortFiles: "distinct (map fst (sortFiles xs)) = distinct (map fst xs)"
  unfolding sortFiles_def by (simp add: distinct_map)

lemma set_sortFiles: "set (sortFiles xs) = set xs"
  unfolding sortFiles_def by simp

lemma distinct_mergeFiles:
  "distinct (map fst acc) \<Longrightarrow> distinct (map fst (mergeFiles acc xs))"
  by (induction acc xs rule: mergeFiles.induct) (auto simp: distinct_update split: option.splits)

lemma map_of_mergeFiles:
  assumes "distinct (map fst xs)"
  shows "map_of (mergeFiles acc xs) key =
     (case map_of xs key of
        None \<Rightarrow> map_of acc key
      | Some stat \<Rightarrow> (case map_of acc key of None \<Rightarrow> Some stat | Some prev \<Rightarrow> Some (mergeRecord prev stat)))"
  using assms
proof (induction acc xs rule: mergeFiles.induct)
  case (1 acc)
  then show ?case by simp
next
  case (2 acc k stat rest)
  then have notin: "map_of rest k = None"
    by (simp add: map_of_eq_None_iff)
  show ?case
  proof (cases "map_of acc k")
    case None
    then show ?thesis using 2 notin
      by (auto simp: update_conv' mergeRecord_def split: option.splits)
  next
    case (Some prev)
    then show ?thesis using 2 notin
      by (auto simp: update_conv' mergeRecord_def split: option.splits)
  qed
qed

lemma set_update_subset: "set (AList.update k v al) \<subseteq> insert (k, v) (set al)"
  by (induction al) auto

lemma distinct_pushNew:
  "distinct (map path prev) \<Longrightarrow> distinct (map path (pushNew prev (path ` set prev) xs))"
  by (simp add: pushNew_spec distinct_dedupByPath)

lemma list_all_mergeFiles:
  assumes "list_all (\<lambda>(key, stat). distinct (map path (fileImports stat))) acc"
    and "list_all (\<lambda>(key, stat). distinct (map path (fileImports stat))) xs"
  shows "list_all (\<lambda>(key, stat). distinct (map path (fileImports stat))) (mergeFiles acc xs)"
  using assms
proof (induction acc xs rule: mergeFiles.induct)
  case (1 acc)
  then show ?case by simp
next
  case (2 acc k stat rest)
  show ?case
  proof (cases "map_of acc k")
    case None
    have "list_all (\<lambda>(key, stat). distinct (map path (fileImports stat))) (AList.update k stat acc)"
      using "2.prems" set_update_subset [of k stat acc] by (auto simp: list_all_iff)
    then show ?thesis using 2 None by simp
  next
    case (Some prev)
    then have "(k, prev) \<in> set acc" by (rule map_of_SomeD)
    then have "distinct (map path (fileImports prev))"
      using "2.prems"(1) by (auto simp: list_all_iff)
    then have "list_all (\<lambda>(key, stat). distinct (map path (fileImports stat)))
        (AList.update k
           (prev\<lparr>fileImports :=
              pushNew (fileImports prev) (set (map path (fileImports prev))) (fileImports stat)\<rparr>) acc)"
      using "2.prems"(1) distinct_pushNew [of "fileImports prev" "fileImports stat"]
        set_update_subset [of k "prev\<lparr>fileImports :=
              pushNew (fileImports prev) (set (map path (fileImports prev))) (fileImports stat)\<rparr>" acc]
      by (auto simp: list_all_iff)
    then show ?thesis using 2 Some by simp
  qed
qed

lemma importsDistinct_mergeResult:
  "importsDistinct acc \<Longrightarrow> importsDistinct r \<Longrightarrow> importsDistinct (mergeResult acc r)"
  unfolding importsDistinct_def mergeResult_def
  by (simp, intro list_all_mergeFiles) (simp_all add: list_all_iff set_sortFiles)

lemma keysDistinct_mergeResult: "keysDistinct acc \<Longrightarrow> keysDistinct (mergeResult acc r)"
  unfolding keysDistinct_def mergeResult_def by (simp add: distinct_mergeFiles)

lemma importsDistinct_foldl:
  "importsDistinct acc \<Longrightarrow> list_all importsDistinct rs \<Longrightarrow> importsDistinct (foldl mergeResult acc rs)"
  by (induction rs arbitrary: acc) (simp_all add: importsDistinct_mergeResult)

lemma keysDistinct_foldl: "keysDistinct acc \<Longrightarrow> keysDistinct (foldl mergeResult acc rs)"
  by (induction rs arbitrary: acc) (simp_all add: keysDistinct_mergeResult)

lemma modules_foldl:
  "set (modules (foldl mergeResult acc rs)) = set (modules acc) \<union> (\<Union>r\<in>set rs. set (modules r))"
  by (induction rs arbitrary: acc) (auto simp: mergeResult_def)

lemma unresolved_foldl:
  "set (unresolved (foldl mergeResult acc rs)) = set (unresolved acc) \<union> (\<Union>r\<in>set rs. set (unresolved r))"
  by (induction rs arbitrary: acc) (auto simp: mergeResult_def)

lemma distinct_sets_foldl:
  "distinct (modules acc) \<Longrightarrow> distinct (modules (foldl mergeResult acc rs))"
  "distinct (unresolved acc) \<Longrightarrow> distinct (unresolved (foldl mergeResult acc rs))"
  by (induction rs arbitrary: acc) (simp_all add: mergeResult_def)

lemma recordsFor_Cons:
  "recordsFor key (r # rs) =
     (case map_of (files r) key of None \<Rightarrow> recordsFor key rs | Some stat \<Rightarrow> stat # recordsFor key rs)"
  by (simp add: recordsFor_def map_filter_simps split: option.splits)

lemma importsDistinct_lookup:
  "importsDistinct r \<Longrightarrow> map_of (files r) key = Some stat \<Longrightarrow> distinct (map path (fileImports stat))"
  by (auto simp: importsDistinct_def list_all_iff dest!: map_of_SomeD)

lemma files_mergeResult:
  assumes "keysDistinct r"
  shows "map_of (files (mergeResult acc r)) key =
     (case map_of (files r) key of
        None \<Rightarrow> map_of (files acc) key
      | Some stat \<Rightarrow>
          (case map_of (files acc) key of None \<Rightarrow> Some stat | Some prev \<Rightarrow> Some (mergeRecord prev stat)))"
  using assms
  by (simp add: mergeResult_def keysDistinct_def map_of_mergeFiles distinct_sortFiles map_of_sortFiles)

lemma files_foldl:
  assumes "importsDistinct acc" "list_all importsDistinct rs" "list_all keysDistinct rs"
  shows "map_of (files (foldl mergeResult acc rs)) key = combine (map_of (files acc) key) (recordsFor key rs)"
  using assms
proof (induction rs arbitrary: acc)
  case Nil
  show ?case
  proof (cases "map_of (files acc) key")
    case None
    then show ?thesis by (simp add: recordsFor_def map_filter_simps)
  next
    case (Some prev)
    then show ?thesis
      using importsDistinct_lookup [OF Nil(1) Some]
      by (simp add: recordsFor_def map_filter_simps dedupByPath_id)
  qed
next
  case (Cons r rs)
  have step: "map_of (files (foldl mergeResult (mergeResult acc r) rs)) key
      = combine (map_of (files (mergeResult acc r)) key) (recordsFor key rs)"
    using Cons by (intro Cons.IH) (simp_all add: importsDistinct_mergeResult)
  have kd: "keysDistinct r" using Cons.prems by simp
  show ?case
  proof (cases "map_of (files r) key")
    case None
    then show ?thesis using step by (simp add: files_mergeResult [OF kd] recordsFor_Cons)
  next
    case (Some stat)
    show ?thesis
    proof (cases "map_of (files acc) key")
      case None
      then show ?thesis using step Some
        by (simp add: files_mergeResult [OF kd] recordsFor_Cons)
    next
      case prev: (Some prev)
      have "distinct (map path (fileImports prev))"
        using importsDistinct_lookup [OF Cons.prems(1) prev] .
      then have "mergeRecord prev stat = prev\<lparr>fileImports := dedupByPath (fileImports prev @ fileImports stat)\<rparr>"
        by (simp add: mergeRecord_def pushNew_spec)
      then show ?thesis using step Some prev
        using dedupByPath_dedup_append [of "fileImports prev @ fileImports stat" "concat (map fileImports (recordsFor key rs))"]
        by (simp add: files_mergeResult [OF kd] recordsFor_Cons)
    qed
  qed
qed

lemma traverseEntries_collect:
  "traverseEntries X mk es acc s =
     bnd (collectEntries X mk es) (\<lambda>subResults. ret (foldl mergeResult acc subResults)) s"
proof (induction es arbitrary: acc s)
  case Nil
  then show ?case by (simp add: bnd_def ret_def)
next
  case (Cons e es)
  show ?case
    by (cases "traverseEntry X mk e s" rule: prod.exhaust [case_names Pair])
       (auto simp: bnd_def ret_def Cons split: completion.splits prod.splits)
qed

lemma collectEntries_Cons_Normal:
  "traverseEntry X mk entry s = (Normal r, s') \<Longrightarrow> collectEntries X mk rest s' = (Normal rs, s'') \<Longrightarrow>
   collectEntries X mk (entry # rest) s = (Normal (r # rs), s'')"
  by (simp add: bnd_def ret_def)

lemma traverseEntries_of_collect:
  "collectEntries X mk es s = (Normal results, s') \<Longrightarrow>
   traverseEntries X mk es getResultObject s = (Normal (mergeAll results), s')"
  by (simp add: traverseEntries_collect bnd_def ret_def mergeAll_def)

lemma modules_mergeResult [simp]:
  "modules (mergeResult acc r) = fold setAdd (modules r) (modules acc)"
  "unresolved (mergeResult acc r) = fold setAdd (unresolved r) (unresolved acc)"
  "files (mergeResult acc r) = mergeFiles (files acc) (sortFiles (files r))"
  by (simp_all add: mergeResult_def)

subsection \<open>The traverser of the specification\<close>

lemma specifiersOf_consistent:
  assumes "consistent P cch" "map_of (projectFiles P) p = Some f"
  shows "fst (specifiersOf P cch p f) = extractSpecifiers P p f"
    and "consistent P (snd (specifiersOf P cch p f))"
  using assms
  by (auto simp: specifiersOf_def lookup_def consistent_def store_def update_conv'
      split: option.splits sum.splits if_splits)

lemma walk_visited: "p \<in> visited \<Longrightarrow> walk P c (p # queue) visited cch res = walk P c queue visited cch res"
  by simp

lemma walk_missing:
  "p \<notin> visited \<Longrightarrow> map_of (projectFiles P) p = None \<Longrightarrow>
   walk P c (p # queue) visited cch res = (Inl (Error True (Some p) ''file is missing''), cch)"
  by simp

lemma walk_failed:
  "p \<notin> visited \<Longrightarrow> map_of (projectFiles P) p = Some f \<Longrightarrow>
   specifiersOf P cch p f = (Inl err, cch') \<Longrightarrow>
   walk P c (p # queue) visited cch res = (Inl err, cch')"
  by simp

lemma walk_file:
  "p \<notin> visited \<Longrightarrow> map_of (projectFiles P) p = Some f \<Longrightarrow>
   specifiersOf P cch p f = (Inr specs, cch') \<Longrightarrow>
   fold (recordSpecifier P c p) specs ([], res) = (imps, res') \<Longrightarrow>
   walk P c (p # queue) visited cch res =
     walk P c (queue @ map path imps) (insert p visited) cch'
       (res'\<lparr>files := AList.update p \<lparr>filePath = p, fileImports = imps\<rparr> (files res')\<rparr>)"
  by simp

declare walk.simps [simp del]

lemma walk_consistent:
  assumes "consistent P c1" "consistent P c2"
  shows "fst (walk P c queue visited c1 res) = fst (walk P c queue visited c2 res)
       \<and> consistent P (snd (walk P c queue visited c1 res))"
  using assms
proof (induction P c queue visited c1 res arbitrary: c2 rule: walk.induct)
  case (1 P c visited cch res)
  then show ?case by (simp add: walk.simps(1))
next
  case (2 P c p queue visited cch res)
  show ?case
  proof (cases "p \<in> visited")
    case True
    have "walk P c (p # queue) visited cch res = walk P c queue visited cch res"
      "walk P c (p # queue) visited c2 res = walk P c queue visited c2 res"
      using True by (rule walk_visited)+
    then show ?thesis using "2.IH"(1) [OF True "2.prems"] by simp
  next
    case False
    show ?thesis
    proof (cases "map_of (projectFiles P) p")
      case None
      then show ?thesis using "2.prems"(1) by (simp add: walk_missing [OF False None])
    next
      case (Some f)
      note sp1 = specifiersOf_consistent [OF "2.prems"(1) Some]
      note sp2 = specifiersOf_consistent [OF "2.prems"(2) Some]
      obtain r1 k1 where s1: "specifiersOf P cch p f = (r1, k1)" by (cases "specifiersOf P cch p f")
      obtain r2 k2 where s2: "specifiersOf P c2 p f = (r2, k2)" by (cases "specifiersOf P c2 p f")
      have r: "r2 = r1" and k: "consistent P k1" "consistent P k2"
        using sp1 sp2 s1 s2 by simp_all
      show ?thesis
      proof (cases r1)
        case (Inl err)
        then have "walk P c (p # queue) visited cch res = (Inl err, k1)"
          "walk P c (p # queue) visited c2 res = (Inl err, k2)"
          using walk_failed [OF False Some, of cch err k1] walk_failed [OF False Some, of c2 err k2]
            s1 s2 r by simp_all
        then show ?thesis using k by simp
      next
        case (Inr specs)
        obtain imps res' where fo: "fold (recordSpecifier P c p) specs ([], res) = (imps, res')"
          by (cases "fold (recordSpecifier P c p) specs ([], res)")
        have w1: "walk P c (p # queue) visited cch res =
            walk P c (queue @ map path imps) (insert p visited) k1
              (res'\<lparr>files := AList.update p \<lparr>filePath = p, fileImports = imps\<rparr> (files res')\<rparr>)"
          using walk_file [OF False Some _ fo] s1 Inr by simp
        have w2: "walk P c (p # queue) visited c2 res =
            walk P c (queue @ map path imps) (insert p visited) k2
              (res'\<lparr>files := AList.update p \<lparr>filePath = p, fileImports = imps\<rparr> (files res')\<rparr>)"
          using walk_file [OF False Some _ fo] s2 r Inr by simp
        have "(Inr specs, k1) = specifiersOf P cch p f" using s1 Inr by simp
        from "2.IH"(2) [OF False Some this refl fo [symmetric] k(1) k(2)]
        show ?thesis unfolding w1 w2 .
      qed
    qed
  qed
qed

lemma consistent_purgeAll: "consistent P purgeAll"
  by (simp add: consistent_def purgeAll_def)

lemma fold_recordSpecifier:
  assumes "distinct (map path imps)"
  shows "distinct (map path (fst (fold (recordSpecifier P c p) specs (imps, res))))
       \<and> files (snd (fold (recordSpecifier P c p) specs (imps, res))) = files res"
  using assms
proof (induction specs arbitrary: imps res)
  case Nil
  then show ?case by simp
next
  case (Cons raw specs)
  show ?case
  proof (cases "resolve P raw p c")
    case (Resolved found)
    then show ?thesis using Cons.prems Cons.IH [of "imps @ [\<lparr>path = found, specifier = raw\<rparr>]" res] Cons.IH [of imps res]
      by auto
  next
    case (ResolvedExternal pkg)
    then show ?thesis using Cons.prems Cons.IH [of imps "res\<lparr>modules := setAdd pkg (modules res)\<rparr>"]
      by simp
  next
    case (Unresolved u)
    then show ?thesis using Cons.prems Cons.IH [of imps "res\<lparr>unresolved := setAdd u (unresolved res)\<rparr>"]
      by simp
  qed
qed

lemma walk_invariants:
  assumes "importsDistinct res" "keysDistinct res" "walk P c queue visited cch res = (Inr r, cch')"
  shows "importsDistinct r \<and> keysDistinct r"
  using assms
proof (induction P c queue visited cch res rule: walk.induct)
  case (1 P c visited cch res)
  then show ?case by (simp add: walk.simps(1))
next
  case (2 P c p queue visited cch res)
  show ?case
  proof (cases "p \<in> visited")
    case True
    then show ?thesis using 2 by (simp add: walk_visited)
  next
    case False
    show ?thesis
    proof (cases "map_of (projectFiles P) p")
      case None
      then show ?thesis using False "2.prems" by (simp add: walk_missing)
    next
      case (Some f)
      obtain parsed k where sp: "specifiersOf P cch p f = (parsed, k)"
        by (cases "specifiersOf P cch p f")
      show ?thesis
      proof (cases parsed)
        case (Inl err)
        then show ?thesis using walk_failed [OF False Some, of cch err k] sp "2.prems" by simp
      next
        case (Inr specs)
        obtain imps res' where fo: "fold (recordSpecifier P c p) specs ([], res) = (imps, res')"
          by (cases "fold (recordSpecifier P c p) specs ([], res)")
        have imps: "distinct (map path imps)" and same: "files res' = files res"
          using fold_recordSpecifier [of "[]" P c p specs res] fo by simp_all
        let ?next = "res'\<lparr>files := AList.update p \<lparr>filePath = p, fileImports = imps\<rparr> (files res')\<rparr>"
        have step: "walk P c (p # queue) visited cch res =
            walk P c (queue @ map path imps) (insert p visited) k ?next"
          using walk_file [OF False Some _ fo] sp Inr by simp
        have "importsDistinct ?next"
          using "2.prems"(1) imps same
            set_update_subset [of p "\<lparr>filePath = p, fileImports = imps\<rparr>" "files res"]
          by (auto simp: importsDistinct_def list_all_iff)
        moreover have "keysDistinct ?next"
          using "2.prems"(2) same by (simp add: keysDistinct_def distinct_update)
        moreover have "walk P c (queue @ map path imps) (insert p visited) k ?next = (Inr r, cch')"
          using "2.prems"(3) step by simp
        moreover have "(Inr specs, k) = specifiersOf P cch p f" using sp Inr by simp
        ultimately show ?thesis
          using "2.IH"(2) [OF False Some _ refl fo [symmetric]] by blast
      qed
    qed
  qed
qed

lemma specTraverse_invariants:
  assumes "specTraverse P entry c cch = (Inr r, cch')"
  shows "importsDistinct r \<and> keysDistinct r"
proof -
  have empty: "importsDistinct getResultObject" "keysDistinct getResultObject"
    by (simp_all add: importsDistinct_def keysDistinct_def getResultObject_def)
  from walk_invariants [OF empty assms [unfolded specTraverse_def]] show ?thesis .
qed









lemma traverseEntry_result:
  assumes "traverseEntry X mk entry s = (Normal r, s')"
  shows "\<exists>p c w w'. traverse X p c w = (Inr r, w')"
  using assms
  by (auto simp: traverseEntry_def traverseWithRetry_def bnd_def tryCatch_def callTraverse_def
      acting_def reading_def emit_def getCwd_def ret_def throw_def callPurgeCache_def
      split: prod.splits sum.splits completion.splits if_splits)

lemma collectEntries_results:
  assumes "collectEntries X mk es s = (Normal rs, s')"
  shows "\<forall>r\<in>set rs. \<exists>p c w w'. traverse X p c w = (Inr r, w')"
  using assms
proof (induction es arbitrary: s rs s')
  case Nil
  then show ?case by (simp add: ret_def)
next
  case (Cons e es)
  obtain x sa where first: "traverseEntry X mk e s = (x, sa)"
    by (cases "traverseEntry X mk e s")
  with Cons.prems obtain r where r: "x = Normal r"
    by (cases x) (simp_all add: bnd_def)
  obtain y sb where others: "collectEntries X mk es sa = (y, sb)"
    by (cases "collectEntries X mk es sa")
  with Cons.prems first r obtain rest where rest: "y = Normal rest" and rs: "rs = r # rest"
    by (cases y) (auto simp: bnd_def ret_def)
  from traverseEntry_result [OF first [unfolded r]] Cons.IH [OF others [unfolded rest]] rs
  show ?case by simp
qed

subsection \<open>The concrete project\<close>

lemma demo_fields [simp]:
  "moduleDir demoExterns = ''/opt/unimported/dist''"
  "nodeEnvTest demoExterns = True"
  "logEnabled demoExterns = False"
  "readPkgUp demoExterns dir w =
     Inr (if dir = ''/project'' \<or> dir = ''/project/src'' then Some demoProjectPkg
          else if dir = ''/opt/unimported/dist'' then Some demoOwnPkg else None)"
  "pathDirname demoExterns p = rev (drop 1 (dropWhile (\<lambda>ch. ch \<noteq> CHR ''/'') (rev p)))"
  "pathJoin demoExterns a b = a @ ''/'' @ b"
  "getConfig demoExterns w = Inr demoConfig"
  "getDependencies demoExterns dir w = Inr demoDependencies"
  "getPeerDependencies demoExterns dir w = Inr []"
  "writeConfig demoExterns ignoreLists w = (Inr (), w)"
  "gitStatusNotAdded demoExterns dir w = Inr []"
  "getAliases demoExterns entry w = Inr (entryAliases entry)"
  "getCacheIdentity demoExterns dir entry =
     dir @ ''/'' @ entryFile entry @ ''#'' @ (case label entry of None \<Rightarrow> [] | Some l \<Rightarrow> l)"
  "traverse demoExterns = demoTraverse"
  "purgeCache demoExterns w = 1"
  "storeCache demoExterns w = w"
  "fsExists demoExterns name dir w = Inr True"
  "fsList demoExterns pattern dir exts ignored w = Inr [dir @ ''/entry.js'', dir @ ''/unused.js'']"
  "processResults demoExterns listed r context w =
     Inr \<lparr>unimported = [''src/unused.js''], unresolvedImports = unresolved r, unused = [], clean = False\<rparr>"
  "updateAllowLists demoExterns result context w = (Inr (), w)"
  by (simp_all add: demoExterns_def)

lemma broken_fields [simp]:
  "moduleDir brokenExterns = moduleDir demoExterns"
  "nodeEnvTest brokenExterns = nodeEnvTest demoExterns"
  "logEnabled brokenExterns = logEnabled demoExterns"
  "readPkgUp brokenExterns = readPkgUp demoExterns"
  "pathDirname brokenExterns = pathDirname demoExterns"
  "pathResolve brokenExterns = pathResolve demoExterns"
  "getConfig brokenExterns = getConfig demoExterns"
  "getDependencies brokenExterns = getDependencies demoExterns"
  "getPeerDependencies brokenExterns = getPeerDependencies demoExterns"
  "gitStatusNotAdded brokenExterns = gitStatusNotAdded demoExterns"
  "getAliases brokenExterns = getAliases demoExterns"
  "getCacheIdentity brokenExterns = getCacheIdentity demoExterns"
  "traverse brokenExterns p c w = (Inl (Error False (Some p) ''Unexpected token''), w)"
  by (simp_all add: brokenExterns_def)

lemma stale_fields [simp]:
  "nodeEnvTest staleExterns = nodeEnvTest demoExterns"
  "pathResolve staleExterns = pathResolve demoExterns"
  "getAliases staleExterns = getAliases demoExterns"
  "getCacheIdentity staleExterns = getCacheIdentity demoExterns"
  "traverse staleExterns = traverse demoExterns"
  "purgeCache staleExterns w = 0"
  by (simp_all add: staleExterns_def)

lemma demo_traverse [simp]:
  "demoTraverse p c 0 = (Inl (Error True (Some p) ''the cache names a deleted file''), 0)"
  "w \<noteq> 0 \<Longrightarrow> demoTraverse p clientConfig w = (Inr clientResult, Suc w)"
  "w \<noteq> 0 \<Longrightarrow> demoTraverse p serverConfig w = (Inr serverResult, Suc w)"
  by (simp_all add: demoTraverse_def clientConfig_def serverConfig_def demoTraverseConfig_def
      traverseConfigOf_def clientEntry_def serverEntry_def)

lemma demo_config_of:
  "getCacheIdentity X = getCacheIdentity demoExterns \<Longrightarrow> cache a \<Longrightarrow> \<not> flow a \<Longrightarrow>
   traverseConfigOf X a demoConfig [''node_modules''] demoDependencies ''/project'' = demoTraverseConfig"
  by (intro ext) (simp add: demoTraverseConfig_def traverseConfigOf_def demoArgs_def)

lemma demo_entry_path [simp]:
  "pathResolve demoExterns ''/project'' (entryFile clientEntry) = demoEntryPath"
  "pathResolve demoExterns ''/project'' (entryFile serverEntry) = demoEntryPath"
  by (simp_all add: demoExterns_def clientEntry_def serverEntry_def demoEntryPath_def)

lemma demo_entry_configs [simp]:
  "demoTraverseConfig clientEntry (entryAliases clientEntry) = clientConfig"
  "demoTraverseConfig serverEntry (entryAliases serverEntry) = serverConfig"
  by (simp_all add: clientConfig_def serverConfig_def)

lemma demo_client_entry:
  assumes "processCwd s = ''/project''" "world s \<noteq> 0"
  shows "traverseEntry demoExterns demoTraverseConfig clientEntry s =
     (Normal clientResult,
      s\<lparr>world := Suc (Suc (world s)),
        trace := trace s @ [LogStartTraversal clientEntry, CallTraverse demoEntryPath clientConfig,
                            CallTraverse demoEntryPath clientConfig]\<rparr>)"
  using assms
  by (intro traverseEntry_twice
        [where als = "entryAliases clientEntry" and ra = clientResult and wa = "Suc (world s)"]) simp_all

lemma demo_server_entry:
  assumes "processCwd s = ''/project''" "world s \<noteq> 0"
  shows "traverseEntry demoExterns demoTraverseConfig serverEntry s =
     (Normal serverResult,
      s\<lparr>world := Suc (Suc (world s)),
        trace := trace s @ [LogStartTraversal serverEntry, CallTraverse demoEntryPath serverConfig,
                            CallTraverse demoEntryPath serverConfig]\<rparr>)"
  using assms
  by (intro traverseEntry_twice
        [where als = "entryAliases serverEntry" and ra = serverResult and wa = "Suc (world s)"]) simp_all

lemma broken_client_entry:
  assumes "processCwd s = ''/project''"
  shows "traverseEntry brokenExterns demoTraverseConfig clientEntry s =
     (Thrown (Error False (Some demoEntryPath) ''Unexpected token''),
      s\<lparr>trace := trace s @ [LogStartTraversal clientEntry, CallTraverse demoEntryPath clientConfig]\<rparr>)"
proof -
  have "traverseEntry brokenExterns demoTraverseConfig clientEntry s =
     (Thrown (Error False (Some demoEntryPath) ''Unexpected token''),
      s\<lparr>world := world s,
        trace := trace s @ [LogStartTraversal clientEntry, CallTraverse demoEntryPath clientConfig]\<rparr>)"
    using assms
    by (intro traverseEntry_fails [where als = "entryAliases clientEntry"]) simp_all
  then show ?thesis by simp
qed

lemma demo_collect:
  "collectEntries demoExterns demoTraverseConfig [clientEntry, serverEntry]
     \<lparr>world = 1, processCwd = ''/project'', trace = evs\<rparr> =
   (Normal [clientResult, serverResult],
    \<lparr>world = 5, processCwd = ''/project'',
     trace = evs @
       [LogStartTraversal clientEntry, CallTraverse demoEntryPath clientConfig,
        CallTraverse demoEntryPath clientConfig,
        LogStartTraversal serverEntry, CallTraverse demoEntryPath serverConfig,
        CallTraverse demoEntryPath serverConfig]\<rparr>)"
proof -
  have a: "traverseEntry demoExterns demoTraverseConfig clientEntry
      \<lparr>world = 1, processCwd = ''/project'', trace = evs\<rparr>
    = (Normal clientResult,
       \<lparr>world = 3, processCwd = ''/project'',
        trace = evs @ [LogStartTraversal clientEntry, CallTraverse demoEntryPath clientConfig,
                       CallTraverse demoEntryPath clientConfig]\<rparr>)"
    by (simp add: demo_client_entry)
  have b: "traverseEntry demoExterns demoTraverseConfig serverEntry
      \<lparr>world = 3, processCwd = ''/project'',
        trace = evs @ [LogStartTraversal clientEntry, CallTraverse demoEntryPath clientConfig,
                       CallTraverse demoEntryPath clientConfig]\<rparr>
    = (Normal serverResult,
       \<lparr>world = 5, processCwd = ''/project'',
        trace = evs @
          [LogStartTraversal clientEntry, CallTraverse demoEntryPath clientConfig,
           CallTraverse demoEntryPath clientConfig,
           LogStartTraversal serverEntry, CallTraverse demoEntryPath serverConfig,
           CallTraverse demoEntryPath serverConfig]\<rparr>)"
    by (simp add: demo_server_entry)
  have c: "collectEntries demoExterns demoTraverseConfig []
      \<lparr>world = 5, processCwd = ''/project'',
        trace = evs @
          [LogStartTraversal clientEntry, CallTraverse demoEntryPath clientConfig,
           CallTraverse demoEntryPath clientConfig,
           LogStartTraversal serverEntry, CallTraverse demoEntryPath serverConfig,
           CallTraverse demoEntryPath serverConfig]\<rparr>
    = (Normal [],
       \<lparr>world = 5, processCwd = ''/project'',
        trace = evs @
          [LogStartTraversal clientEntry, CallTraverse demoEntryPath clientConfig,
           CallTraverse demoEntryPath clientConfig,
           LogStartTraversal serverEntry, CallTraverse demoEntryPath serverConfig,
           CallTraverse demoEntryPath serverConfig]\<rparr>)"
    by (simp add: ret_def)
  show ?thesis
    by (rule collectEntries_Cons_Normal [OF a collectEntries_Cons_Normal [OF b c]])
qed

lemma demo_traverseEntries:
  "traverseEntries demoExterns demoTraverseConfig [clientEntry, serverEntry] getResultObject
     \<lparr>world = 1, processCwd = ''/project'', trace = evs\<rparr> =
   (Normal (mergeAll [clientResult, serverResult]),
    \<lparr>world = 5, processCwd = ''/project'',
     trace = evs @
       [LogStartTraversal clientEntry, CallTraverse demoEntryPath clientConfig,
        CallTraverse demoEntryPath clientConfig,
        LogStartTraversal serverEntry, CallTraverse demoEntryPath serverConfig,
        CallTraverse demoEntryPath serverConfig]\<rparr>)"
  by (rule traverseEntries_of_collect [OF demo_collect])

lemma demo_invariants:
  "importsDistinct clientResult" "importsDistinct serverResult"
  "keysDistinct clientResult" "keysDistinct serverResult"
  by (simp_all add: importsDistinct_def keysDistinct_def clientResult_def serverResult_def demoImport_def)

lemma demo_atTry:
  "atTry demoExterns demoProjectPkg (demoStart w ''/project/src'')
     = \<lparr>world = w, processCwd = ''/project'', trace = [Chdir ''/project'']\<rparr>"
  "atTry brokenExterns demoProjectPkg (demoStart w ''/project/src'')
     = \<lparr>world = w, processCwd = ''/project'', trace = [Chdir ''/project'']\<rparr>"
  "projectDir demoExterns demoProjectPkg = ''/project''"
  "projectDir brokenExterns demoProjectPkg = ''/project''"
  "spinnerOf demoExterns = OraStub"
  "spinnerOf brokenExterns = OraStub"
  by (simp_all add: atTry_def projectDir_def spinnerOf_def demoStart_def demoProjectPkg_def)

lemma demo_mainSetup:
  assumes "\<not> init a" "\<not> ignoreUntracked a" "\<not> flow a"
  shows "mainSetup demoExterns a demoOwnPkg ''/project'' OraStub st
       = (Normal (a, demoConfig, demoDependencies, [''node_modules''], demoContext a), st)"
    and "mainSetup brokenExterns a demoOwnPkg ''/project'' OraStub st
       = (Normal (a, demoConfig, demoDependencies, [''node_modules''], demoContext a), st)"
  using assms
  by (simp_all add: mainSetup_def bnd_reading_Inr ret_def demoConfig_def demoContext_def demoOwnPkg_def)

subsection \<open>The claims\<close>

text \<open>
  C1. For an entry point, the orchestrator runs \<open>traverse\<close>. If that call fails with an
  \<open>InvalidCacheError\<close>, the cache is purged and the same traversal (same path, same
  configuration) runs once more; whatever the retry yields is final: its result is
  merged, or its error leaves the loop, no further call being made, and the \<open>catch\<close>
  block of \<open>main\<close> ends the process with code 1 whatever was to follow the loop. Any
  other error of the first call leaves the loop at once, without purge or retry.
\<close>

theorem retry_once_after_invalid_cache:
  assumes als: "getAliases X entry (world s) = Inr als"
    and p: "p = pathResolve X (processCwd s) (entryFile entry)"
    and c: "c = mk entry als"
    and first: "traverse X p c (world s) = (Inl e, wa)"
  shows "traverseEntries X mk (entry # rest) acc s =
       (if isInvalidCacheError e then
          (case traverse X p c (purgeCache X wa) of
             (Inl eb, wb) \<Rightarrow>
               (Thrown eb,
                s\<lparr>world := wb,
                  trace := trace s @
                    [LogStartTraversal entry, CallTraverse p c, CallPurgeCache, CallTraverse p c]\<rparr>)
           | (Inr rb, wb) \<Rightarrow>
               traverseEntries X mk rest (mergeResult acc rb)
                 (s\<lparr>world := wb,
                    trace := trace s @
                      [LogStartTraversal entry, CallTraverse p c, CallPurgeCache, CallTraverse p c]\<rparr>))
        else (Thrown e, s\<lparr>world := wa, trace := trace s @ [LogStartTraversal entry, CallTraverse p c]\<rparr>))
     \<and> (isInvalidCacheError e \<and> traverse X p c (purgeCache X wa) = (Inl eb, wb) \<longrightarrow>
          tryCatch (bnd (traverseEntries X mk (entry # rest) acc) k) (mainCatch X sp) s =
            (Exited 1,
             s\<lparr>world := wb,
               trace := trace s @
                 [LogStartTraversal entry, CallTraverse p c, CallPurgeCache, CallTraverse p c] @
                 catchEvents X sp eb\<rparr>))"
proof -
  have loop: "traverseEntries X mk (entry # rest) acc s =
       (if isInvalidCacheError e then
          (case traverse X p c (purgeCache X wa) of
             (Inl eb, wb) \<Rightarrow>
               (Thrown eb,
                s\<lparr>world := wb,
                  trace := trace s @
                    [LogStartTraversal entry, CallTraverse p c, CallPurgeCache, CallTraverse p c]\<rparr>)
           | (Inr rb, wb) \<Rightarrow>
               traverseEntries X mk rest (mergeResult acc rb)
                 (s\<lparr>world := wb,
                    trace := trace s @
                      [LogStartTraversal entry, CallTraverse p c, CallPurgeCache, CallTraverse p c]\<rparr>))
        else (Thrown e, s\<lparr>world := wa, trace := trace s @ [LogStartTraversal entry, CallTraverse p c]\<rparr>))"
  proof (cases "isInvalidCacheError e")
    case True
    have "traverseEntry X mk entry s =
        callTraverse X p c
          (s\<lparr>world := purgeCache X wa,
             trace := trace s @ [LogStartTraversal entry, CallTraverse p c, CallPurgeCache]\<rparr>)"
      using first True by (simp add: traverseEntry_run [OF als] p c traverseWithRetry_invalid_cache)
    then show ?thesis using True
      by (simp add: bnd_def callTraverse_def acting_def split: prod.splits sum.splits)
  next
    case False
    have "traverseEntry X mk entry s =
        (Thrown e, s\<lparr>world := wa, trace := trace s @ [LogStartTraversal entry, CallTraverse p c]\<rparr>)"
      using first False by (simp add: traverseEntry_run [OF als] p c traverseWithRetry_other_error)
    then show ?thesis using False by (simp add: bnd_def)
  qed
  have fatal: "tryCatch (bnd (traverseEntries X mk (entry # rest) acc) k) (mainCatch X sp) s =
            (Exited 1,
             s\<lparr>world := wb,
               trace := trace s @
                 [LogStartTraversal entry, CallTraverse p c, CallPurgeCache, CallTraverse p c] @
                 catchEvents X sp eb\<rparr>)"
    if "isInvalidCacheError e" and "traverse X p c (purgeCache X wa) = (Inl eb, wb)"
  proof -
    have "traverseEntries X mk (entry # rest) acc s =
        (Thrown eb,
         s\<lparr>world := wb,
           trace := trace s @
             [LogStartTraversal entry, CallTraverse p c, CallPurgeCache, CallTraverse p c]\<rparr>)"
      using loop that by simp
    then have "bnd (traverseEntries X mk (entry # rest) acc) k s =
        (Thrown eb,
         s\<lparr>world := wb,
           trace := trace s @
             [LogStartTraversal entry, CallTraverse p c, CallPurgeCache, CallTraverse p c]\<rparr>)"
      by (rule bnd_Thrown)
    then show ?thesis
      by (simp add: tryCatch_Thrown mainCatch_run)
  qed
  from loop fatal show ?thesis by blast
qed

theorem retry_once_after_invalid_cache_witness:
  "traverse demoExterns demoEntryPath clientConfig 0
     = (Inl (Error True (Some demoEntryPath) ''the cache names a deleted file''), 0)
   \<and> traverseEntries demoExterns demoTraverseConfig [clientEntry] getResultObject (demoStart 0 ''/project'') =
       (Normal (mergeResult getResultObject clientResult),
        \<lparr>world = 2, processCwd = ''/project'',
         trace = [LogStartTraversal clientEntry, CallTraverse demoEntryPath clientConfig, CallPurgeCache,
                  CallTraverse demoEntryPath clientConfig]\<rparr>)
   \<and> tryCatch (bnd (traverseEntries staleExterns demoTraverseConfig [clientEntry] getResultObject) (\<lambda>r. ret ()))
        (mainCatch staleExterns OraStub) (demoStart 0 ''/project'') =
       (Exited 1,
        \<lparr>world = 0, processCwd = ''/project'',
         trace = [LogStartTraversal clientEntry, CallTraverse demoEntryPath clientConfig, CallPurgeCache,
                  CallTraverse demoEntryPath clientConfig,
                  ConsoleLog (Plain ''the cache names a deleted file''),
                  LogInfo [],
                  ConsoleError (RedBright (CHR 0x0A # ''Failed parsing /project/src/entry.js'')),
                  ConsoleError (ErrorValue (Error True (Some demoEntryPath) ''the cache names a deleted file''))]\<rparr>)"
proof -
  have als: "getAliases demoExterns clientEntry (world (demoStart 0 ''/project'')) = Inr (entryAliases clientEntry)"
    and als': "getAliases staleExterns clientEntry (world (demoStart 0 ''/project'')) = Inr (entryAliases clientEntry)"
    by simp_all
  have p: "demoEntryPath = pathResolve demoExterns (processCwd (demoStart 0 ''/project'')) (entryFile clientEntry)"
    and p': "demoEntryPath = pathResolve staleExterns (processCwd (demoStart 0 ''/project'')) (entryFile clientEntry)"
    by (simp_all add: demoStart_def)
  have c: "clientConfig = demoTraverseConfig clientEntry (entryAliases clientEntry)"
    by simp
  have first: "traverse demoExterns demoEntryPath clientConfig (world (demoStart 0 ''/project''))
      = (Inl (Error True (Some demoEntryPath) ''the cache names a deleted file''), 0)"
    and first': "traverse staleExterns demoEntryPath clientConfig (world (demoStart 0 ''/project''))
      = (Inl (Error True (Some demoEntryPath) ''the cache names a deleted file''), 0)"
    by (simp_all add: demoStart_def)
  have retry: "traverse demoExterns demoEntryPath clientConfig (purgeCache demoExterns 0) = (Inr clientResult, 2)"
    by simp
  have retry': "traverse staleExterns demoEntryPath clientConfig (purgeCache staleExterns 0)
      = (Inl (Error True (Some demoEntryPath) ''the cache names a deleted file''), 0)"
    by simp
  have ok: "traverseEntries demoExterns demoTraverseConfig [clientEntry] getResultObject (demoStart 0 ''/project'') =
       (Normal (mergeResult getResultObject clientResult),
        \<lparr>world = 2, processCwd = ''/project'',
         trace = [LogStartTraversal clientEntry, CallTraverse demoEntryPath clientConfig, CallPurgeCache,
                  CallTraverse demoEntryPath clientConfig]\<rparr>)"
    using retry_once_after_invalid_cache
        [where mk = demoTraverseConfig and rest = "[]" and acc = getResultObject, OF als p c first] retry
    by (simp add: ret_def demoStart_def)
  have fatal: "tryCatch (bnd (traverseEntries staleExterns demoTraverseConfig [clientEntry] getResultObject) (\<lambda>r. ret ()))
        (mainCatch staleExterns OraStub) (demoStart 0 ''/project'') =
       (Exited 1,
        \<lparr>world = 0, processCwd = ''/project'',
         trace = [LogStartTraversal clientEntry, CallTraverse demoEntryPath clientConfig, CallPurgeCache,
                  CallTraverse demoEntryPath clientConfig,
                  ConsoleLog (Plain ''the cache names a deleted file''),
                  LogInfo [],
                  ConsoleError (RedBright (CHR 0x0A # ''Failed parsing /project/src/entry.js'')),
                  ConsoleError (ErrorValue (Error True (Some demoEntryPath) ''the cache names a deleted file''))]\<rparr>)"
    using retry_once_after_invalid_cache
        [where mk = demoTraverseConfig and rest = "[]" and acc = getResultObject and wb = 0
           and k = "\<lambda>r. ret ()" and sp = OraStub, OF als' p' c first'] retry'
    by (simp add: demoStart_def catchEvents_def demoEntryPath_def)
  from first ok fatal show ?thesis by (simp add: demoStart_def)
qed

text \<open>
  C2. After the traversals of all entry points, the merged result's \<open>modules\<close> are the
  union of the entries' \<open>modules\<close>, its \<open>unresolved\<close> the union of the entries'
  \<open>unresolved\<close>, and its \<open>files\<close> map holds one record per path: the record of the
  first entry that saw the path, whose import list is the union of all entries' import
  lists for that path, deduplicated by resolved path in first-seen order. The entries'
  results are results of \<open>traverse\<close>: maps, whose records list no path twice.
\<close>

theorem merged_result_is_union:
  assumes collected: "collectEntries X mk es s = (Normal results, s')"
    and maps: "list_all keysDistinct results"
    and records: "list_all importsDistinct results"
  shows "traverseEntries X mk es getResultObject s = (Normal (mergeAll results), s')
     \<and> set (modules (mergeAll results)) = (\<Union>r\<in>set results. set (modules r))
     \<and> set (unresolved (mergeAll results)) = (\<Union>r\<in>set results. set (unresolved r))
     \<and> distinct (map fst (files (mergeAll results)))
     \<and> map_of (files (mergeAll results)) key =
         (case recordsFor key results of
            [] \<Rightarrow> None
          | stat # stats \<Rightarrow>
              Some (stat\<lparr>fileImports := dedupByPath (concat (map fileImports (stat # stats)))\<rparr>))"
proof -
  have run: "traverseEntries X mk es getResultObject s = (Normal (mergeAll results), s')"
    using collected by (rule traverseEntries_of_collect)
  have empty: "importsDistinct getResultObject" "keysDistinct getResultObject"
    by (simp_all add: importsDistinct_def keysDistinct_def getResultObject_def)
  have mods: "set (modules (mergeAll results)) = (\<Union>r\<in>set results. set (modules r))"
    by (simp add: mergeAll_def modules_foldl getResultObject_def)
  have unres: "set (unresolved (mergeAll results)) = (\<Union>r\<in>set results. set (unresolved r))"
    by (simp add: mergeAll_def unresolved_foldl getResultObject_def)
  have keys: "distinct (map fst (files (mergeAll results)))"
    using keysDistinct_foldl [OF empty(2), of results] by (simp add: mergeAll_def keysDistinct_def)
  have "map_of (files (mergeAll results)) key = combine (map_of (files getResultObject) key) (recordsFor key results)"
    unfolding mergeAll_def by (rule files_foldl [OF empty(1) records maps])
  also have "\<dots> = (case recordsFor key results of
            [] \<Rightarrow> None
          | stat # stats \<Rightarrow>
              Some (stat\<lparr>fileImports := dedupByPath (concat (map fileImports (stat # stats)))\<rparr>))"
    by (cases "recordsFor key results") (simp_all add: getResultObject_def)
  finally show ?thesis using run mods unres keys by simp
qed

theorem merged_result_is_union_witness:
  "list_all keysDistinct [clientResult, serverResult]
   \<and> list_all importsDistinct [clientResult, serverResult]
   \<and> fst (traverseEntries demoExterns demoTraverseConfig [clientEntry, serverEntry] getResultObject
          (demoStart 1 ''/project'')) = Normal (mergeAll [clientResult, serverResult])
   \<and> set (modules (mergeAll [clientResult, serverResult])) = {''@test/client'', ''react'', ''@test/server''}
   \<and> set (unresolved (mergeAll [clientResult, serverResult])) = {''./missing''}
   \<and> map_of (files (mergeAll [clientResult, serverResult])) demoEntryPath =
       Some \<lparr>filePath = demoEntryPath,
             fileImports = [demoImport ''/project/src/config.client.js'' ''./config'',
                            demoImport ''/project/src/config.server.js'' ''./config'']\<rparr>
   \<and> map_of (files (mergeAll [clientResult, serverResult])) ''/project/src/shared.js'' =
       Some \<lparr>filePath = ''/project/src/shared.js'', fileImports = []\<rparr>"
proof -
  have collected: "collectEntries demoExterns demoTraverseConfig [clientEntry, serverEntry]
      (demoStart 1 ''/project'') =
      (Normal [clientResult, serverResult],
       \<lparr>world = 5, processCwd = ''/project'',
        trace = [] @
          [LogStartTraversal clientEntry, CallTraverse demoEntryPath clientConfig,
           CallTraverse demoEntryPath clientConfig,
           LogStartTraversal serverEntry, CallTraverse demoEntryPath serverConfig,
           CallTraverse demoEntryPath serverConfig]\<rparr>)"
    unfolding demoStart_def by (rule demo_collect)
  have maps: "list_all keysDistinct [clientResult, serverResult]"
    and records: "list_all importsDistinct [clientResult, serverResult]"
    by (simp_all add: demo_invariants)
  have entry: "recordsFor demoEntryPath [clientResult, serverResult] =
      [\<lparr>filePath = demoEntryPath,
        fileImports = [demoImport ''/project/src/config.client.js'' ''./config'']\<rparr>,
       \<lparr>filePath = demoEntryPath,
        fileImports = [demoImport ''/project/src/config.server.js'' ''./config'']\<rparr>]"
    by (simp add: recordsFor_def map_filter_simps clientResult_def serverResult_def demoEntryPath_def)
  have shared: "recordsFor ''/project/src/shared.js'' [clientResult, serverResult] =
      [\<lparr>filePath = ''/project/src/shared.js'', fileImports = []\<rparr>,
       \<lparr>filePath = ''/project/src/shared.js'', fileImports = []\<rparr>]"
    by (simp add: recordsFor_def map_filter_simps clientResult_def serverResult_def)
  have sets: "(\<Union>r\<in>set [clientResult, serverResult]. set (modules r)) = {''@test/client'', ''react'', ''@test/server''}"
    "(\<Union>r\<in>set [clientResult, serverResult]. set (unresolved r)) = {''./missing''}"
    by (auto simp: clientResult_def serverResult_def)
  note merged = merged_result_is_union [OF collected maps records]
  have run: "fst (traverseEntries demoExterns demoTraverseConfig [clientEntry, serverEntry] getResultObject
          (demoStart 1 ''/project'')) = Normal (mergeAll [clientResult, serverResult])"
    using merged [of demoEntryPath, THEN conjunct1] by (simp only: fst_conv)
  have mods: "set (modules (mergeAll [clientResult, serverResult])) = {''@test/client'', ''react'', ''@test/server''}"
    using merged [of demoEntryPath, THEN conjunct2, THEN conjunct1] sets(1) by (simp only:)
  have unres: "set (unresolved (mergeAll [clientResult, serverResult])) = {''./missing''}"
    using merged [of demoEntryPath, THEN conjunct2, THEN conjunct2, THEN conjunct1] sets(2) by (simp only:)
  have entryRecord: "map_of (files (mergeAll [clientResult, serverResult])) demoEntryPath =
       Some \<lparr>filePath = demoEntryPath,
             fileImports = [demoImport ''/project/src/config.client.js'' ''./config'',
                            demoImport ''/project/src/config.server.js'' ''./config'']\<rparr>"
    using merged [of demoEntryPath, THEN conjunct2, THEN conjunct2, THEN conjunct2, THEN conjunct2]
    by (simp add: entry demoImport_def)
  have sharedRecord: "map_of (files (mergeAll [clientResult, serverResult])) ''/project/src/shared.js'' =
       Some \<lparr>filePath = ''/project/src/shared.js'', fileImports = []\<rparr>"
    using merged [of "''/project/src/shared.js''", THEN conjunct2, THEN conjunct2, THEN conjunct2, THEN conjunct2]
    by (simp add: shared)
  from maps records run mods unres entryRecord sharedRecord show ?thesis
    by (intro conjI)
qed




text \<open>
  C4. A traversal with the cache warmed by a first traversal of the same entry, the
  files unchanged, yields what the traversal with a cold (empty) cache yields: the
  same \<open>TraversalResult\<close>, or the same error. (The traverser and the cache are those of the
  specification; the traversal is a total function, so both runs return.)
\<close>

theorem warm_cache_traversal_equals_cold:
  "fst (specTraverse P entry c (snd (specTraverse P entry c purgeAll)))
     = fst (specTraverse P entry c purgeAll)"
proof -
  have cold: "consistent P purgeAll"
    by (rule consistent_purgeAll)
  have warm: "consistent P (snd (specTraverse P entry c purgeAll))"
    unfolding specTraverse_def using walk_consistent [OF cold cold] by blast
  show ?thesis
    unfolding specTraverse_def
    using walk_consistent [OF warm [unfolded specTraverse_def] cold] by blast
qed

theorem warm_cache_traversal_equals_cold_witness:
  "specTraverse demoProject ''/project/index.js'' plainConfig purgeAll = (Inr demoWalkResult, demoWarmCache)
   \<and> fst (specTraverse demoProject ''/project/index.js'' plainConfig demoWarmCache) = Inr demoWalkResult"
proof -
  have cold: "specTraverse demoProject ''/project/index.js'' plainConfig purgeAll
      = (Inr demoWalkResult, demoWarmCache)"
    by code_simp
  from warm_cache_traversal_equals_cold [of demoProject "''/project/index.js''" plainConfig] cold
  show ?thesis by simp
qed

text \<open>
  C5. An error that leaves the traversal of the entry points (a parse error of either
  call, or the error of the retry after an \<open>InvalidCacheError\<close>) aborts the run: for
  an error that carries the failing path, \<open>main\<close> writes \<open>Failed parsing <path>\<close> to
  stderr, calls \<open>printResults\<close> nowhere, and exits with code 1.
\<close>

theorem traversal_failure_aborts_run:
  assumes enters: "entersProject X args0 s projectPkg unimportedPkg"
    and prepared: "mainSetup X args0 unimportedPkg (projectDir X projectPkg) (spinnerOf X) (atTry X projectPkg s)
                  = (Normal (args, cfg, deps, modDirs, ctx), sa)"
    and fails: "mainTraversal X args cfg deps modDirs (projectDir X projectPkg) (spinnerOf X) sa = (Thrown e, sb)"
    and failing: "errorPath e = Some p" "p \<noteq> []"
  shows "main X args0 s = (Exited 1, sb\<lparr>trace := trace sb @ catchEvents X (spinnerOf X) e\<rparr>)
       \<and> ConsoleError (RedBright (CHR 0x0A # ''Failed parsing '' @ p)) \<in> set (catchEvents X (spinnerOf X) e)
       \<and> reports (trace sb @ catchEvents X (spinnerOf X) e) = reports (trace s)"
proof -
  have "mainTry X args0 unimportedPkg (projectDir X projectPkg) (spinnerOf X) (atTry X projectPkg s) = (Thrown e, sb)"
    using prepared fails by (rule mainTry_traversal_throws)
  then have run: "main X args0 s = (Exited 1, sb\<lparr>trace := trace sb @ catchEvents X (spinnerOf X) e\<rparr>)"
    by (simp add: main_enters [OF enters] tryCatch_def mainCatch_run)
  have msg: "ConsoleError (RedBright (CHR 0x0A # ''Failed parsing '' @ p)) \<in> set (catchEvents X (spinnerOf X) e)"
    using failing by (simp add: catchEvents_def)
  have "reports (trace sa) = reports (trace (atTry X projectPkg s))"
    using quietD [OF quiet_mainSetup prepared] .
  moreover have "reports (trace sb) = reports (trace sa)"
    using quietD [OF quiet_mainTraversal fails] .
  ultimately have "reports (trace sb @ catchEvents X (spinnerOf X) e) = reports (trace s)"
    by simp
  with run msg show ?thesis by simp
qed

theorem traversal_failure_aborts_run_witness:
  "traverse brokenExterns demoEntryPath clientConfig 1
     = (Inl (Error False (Some demoEntryPath) ''Unexpected token''), 1)
   \<and> main brokenExterns demoArgs (demoStart 1 ''/project/src'') =
       (Exited 1,
        \<lparr>world = 1, processCwd = ''/project'',
         trace = [Chdir ''/project'', LogInfo ''resolving imports'', LogStartTraversal clientEntry,
                  CallTraverse demoEntryPath clientConfig,
                  ConsoleLog (Plain ''Unexpected token''),
                  LogInfo [],
                  ConsoleError (RedBright (CHR 0x0A # ''Failed parsing /project/src/entry.js'')),
                  ConsoleError (ErrorValue (Error False (Some demoEntryPath) ''Unexpected token''))]\<rparr>)"
proof -
  have enters: "entersProject brokenExterns demoArgs (demoStart 1 ''/project/src'') demoProjectPkg demoOwnPkg"
    by (simp add: entersProject_def demoArgs_def demoStart_def demoProjectPkg_def demoOwnPkg_def)
  have prepared: "mainSetup brokenExterns demoArgs demoOwnPkg (projectDir brokenExterns demoProjectPkg)
      (spinnerOf brokenExterns) (atTry brokenExterns demoProjectPkg (demoStart 1 ''/project/src''))
      = (Normal (demoArgs, demoConfig, demoDependencies, [''node_modules''], demoContext demoArgs),
         \<lparr>world = 1, processCwd = ''/project'', trace = [Chdir ''/project'']\<rparr>)"
    by (simp add: demo_atTry demo_mainSetup demoArgs_def)
  have first: "traverse brokenExterns demoEntryPath clientConfig 1
     = (Inl (Error False (Some demoEntryPath) ''Unexpected token''), 1)"
    by simp
  have fails: "mainTraversal brokenExterns demoArgs demoConfig demoDependencies [''node_modules'']
      (projectDir brokenExterns demoProjectPkg) (spinnerOf brokenExterns)
      \<lparr>world = 1, processCwd = ''/project'', trace = [Chdir ''/project'']\<rparr>
      = (Thrown (Error False (Some demoEntryPath) ''Unexpected token''),
         \<lparr>world = 1, processCwd = ''/project'',
          trace = [Chdir ''/project'', LogInfo ''resolving imports'', LogStartTraversal clientEntry,
                   CallTraverse demoEntryPath clientConfig]\<rparr>)"
  proof -
    have entries: "entryFiles demoConfig = [clientEntry, serverEntry]"
      by (simp add: demoConfig_def)
    have "traverseEntry brokenExterns demoTraverseConfig clientEntry
        \<lparr>world = 1, processCwd = ''/project'', trace = [Chdir ''/project'', LogInfo ''resolving imports'']\<rparr>
      = (Thrown (Error False (Some demoEntryPath) ''Unexpected token''),
         \<lparr>world = 1, processCwd = ''/project'',
          trace = [Chdir ''/project'', LogInfo ''resolving imports'', LogStartTraversal clientEntry,
                   CallTraverse demoEntryPath clientConfig]\<rparr>)"
      by (simp add: broken_client_entry)
    then show ?thesis
      by (simp add: mainTraversal_run demo_atTry entries demo_config_of demoArgs_def bnd_def)
  qed
  have failing: "errorPath (Error False (Some demoEntryPath) ''Unexpected token'') = Some demoEntryPath"
    "demoEntryPath \<noteq> []"
    by (simp_all add: demoEntryPath_def)
  from traversal_failure_aborts_run [OF enters prepared fails failing] first
  show ?thesis
    by (simp add: catchEvents_def demo_atTry demoEntryPath_def)
qed

text \<open>
  C6. Every file record of the result of a run, also a record merged from several
  entries' results, lists each resolved path at most once. (The merge is that of
  \<open>index.ts\<close>, which removes no duplicate from a record it stores first; the traverser is
  that of the specification, run on the project and the cache of the world in which
  \<open>traverse\<close> is called.)
\<close>

theorem merged_imports_distinct:
  assumes traverser: "\<And>p c w. fst (traverse X p c w) = fst (specTraverse (projectOf w) p c (cacheOf w))"
    and run: "fst (traverseEntries X mk es getResultObject s) = Normal merged"
  shows "list_all (\<lambda>(key, stat). distinct (map path (fileImports stat))) (files merged)"
proof -
  obtain x sa where collected: "collectEntries X mk es s = (x, sa)"
    by (cases "collectEntries X mk es s")
  with run obtain results where results: "x = Normal results" and merged: "merged = mergeAll results"
    by (cases x) (auto simp: traverseEntries_collect bnd_def ret_def mergeAll_def)
  have "importsDistinct r" if "r \<in> set results" for r
  proof -
    from collectEntries_results [OF collected [unfolded results]] that
    obtain p c w w' where "traverse X p c w = (Inr r, w')" by blast
    then have "fst (specTraverse (projectOf w) p c (cacheOf w)) = Inr r"
      using traverser [of p c w] by simp
    then have "specTraverse (projectOf w) p c (cacheOf w) = (Inr r, snd (specTraverse (projectOf w) p c (cacheOf w)))"
      by (simp add: prod_eq_iff)
    then show ?thesis using specTraverse_invariants by blast
  qed
  then have "list_all importsDistinct results"
    by (simp add: list_all_iff)
  moreover have "importsDistinct getResultObject"
    by (simp add: importsDistinct_def getResultObject_def)
  ultimately have "importsDistinct (mergeAll results)"
    unfolding mergeAll_def by (intro importsDistinct_foldl)
  then show ?thesis by (simp add: merged importsDistinct_def)
qed

theorem merged_imports_distinct_witness:
  "fst (specTraverse splitProject ''/project/src/entry.js'' (splitTraverseConfig splitClient []) purgeAll)
     = Inr splitClientResult
   \<and> fst (specTraverse splitProject ''/project/src/entry.js'' (splitTraverseConfig splitServer []) purgeAll)
     = Inr splitServerResult
   \<and> fst (traverseEntries splitExterns splitTraverseConfig [splitClient, splitServer] getResultObject splitStart)
     = Normal splitMerged
   \<and> map_of (files splitMerged) ''/project/src/entry.js'' =
       Some \<lparr>filePath = ''/project/src/entry.js'',
             fileImports = [demoImport ''/project/src/config.client.js'' ''./config'',
                            demoImport ''/project/src/shared.js'' ''./shared'',
                            demoImport ''/project/src/config.server.js'' ''./config'']\<rparr>
   \<and> list_all (\<lambda>(key, stat). distinct (map path (fileImports stat))) (files splitMerged)"
proof -
  have client: "fst (specTraverse splitProject ''/project/src/entry.js'' (splitTraverseConfig splitClient []) purgeAll)
     = Inr splitClientResult"
    by code_simp
  have server: "fst (specTraverse splitProject ''/project/src/entry.js'' (splitTraverseConfig splitServer []) purgeAll)
     = Inr splitServerResult"
    by code_simp
  have traverser: "fst (traverse splitExterns p c w) = fst (specTraverse ((\<lambda>w. splitProject) w) p c ((\<lambda>w. w) w))"
    for p c w
    by (simp add: splitExterns_def)
  have run: "fst (traverseEntries splitExterns splitTraverseConfig [splitClient, splitServer] getResultObject splitStart)
     = Normal splitMerged"
    by code_simp
  have entry: "map_of (files splitMerged) ''/project/src/entry.js'' =
       Some \<lparr>filePath = ''/project/src/entry.js'',
             fileImports = [demoImport ''/project/src/config.client.js'' ''./config'',
                            demoImport ''/project/src/shared.js'' ''./shared'',
                            demoImport ''/project/src/config.server.js'' ''./config'']\<rparr>"
    by (simp add: splitMerged_def)
  from merged_imports_distinct [where projectOf = "\<lambda>w. splitProject" and cacheOf = "\<lambda>w. w", OF traverser run]
    client server run entry
  show ?thesis by (intro conjI)
qed

text \<open>
  C7. The merged result of a run holds no package name twice in \<open>modules\<close> and no
  specifier twice in \<open>unresolved\<close>, however many entry points name the same package or
  fail on the same specifier.
\<close>

theorem merged_sets_distinct:
  assumes "traverseEntries X mk es getResultObject s = (Normal merged, s')"
  shows "distinct (modules merged) \<and> distinct (unresolved merged)"
proof -
  from assms obtain results where "merged = foldl mergeResult getResultObject results"
    by (auto simp: traverseEntries_collect bnd_def ret_def split: prod.splits completion.splits)
  then show ?thesis
    by (simp add: distinct_sets_foldl getResultObject_def)
qed

theorem merged_sets_distinct_witness:
  "traverseEntries demoExterns demoTraverseConfig [clientEntry, serverEntry] getResultObject
     (demoStart 1 ''/project'') =
     (Normal (mergeAll [clientResult, serverResult]),
      \<lparr>world = 5, processCwd = ''/project'',
       trace = [LogStartTraversal clientEntry, CallTraverse demoEntryPath clientConfig,
                CallTraverse demoEntryPath clientConfig,
                LogStartTraversal serverEntry, CallTraverse demoEntryPath serverConfig,
                CallTraverse demoEntryPath serverConfig]\<rparr>)
   \<and> modules (mergeAll [clientResult, serverResult]) = [''@test/client'', ''react'', ''@test/server'']
   \<and> unresolved (mergeAll [clientResult, serverResult]) = [''./missing'']
   \<and> distinct (modules (mergeAll [clientResult, serverResult]))
   \<and> distinct (unresolved (mergeAll [clientResult, serverResult]))"
proof -
  have run: "traverseEntries demoExterns demoTraverseConfig [clientEntry, serverEntry] getResultObject
     (demoStart 1 ''/project'') =
     (Normal (mergeAll [clientResult, serverResult]),
      \<lparr>world = 5, processCwd = ''/project'',
       trace = [LogStartTraversal clientEntry, CallTraverse demoEntryPath clientConfig,
                CallTraverse demoEntryPath clientConfig,
                LogStartTraversal serverEntry, CallTraverse demoEntryPath serverConfig,
                CallTraverse demoEntryPath serverConfig]\<rparr>)"
    using demo_traverseEntries [of "[]"] by (simp add: demoStart_def del: traverseEntries.simps)
  have mods: "modules (mergeAll [clientResult, serverResult]) = [''@test/client'', ''react'', ''@test/server'']"
    by (simp add: mergeAll_def getResultObject_def clientResult_def serverResult_def setAdd_def)
  have unres: "unresolved (mergeAll [clientResult, serverResult]) = [''./missing'']"
    by (simp add: mergeAll_def getResultObject_def clientResult_def serverResult_def setAdd_def)
  from merged_sets_distinct [OF run] run mods unres show ?thesis by simp
qed

text \<open>
  C8. When the first \<open>traverse\<close> call for an entry succeeds, \<open>traverse\<close> is called a second
  time with the same path and the same configuration; the result merged into the
  run's result is the one of the second call, and the first result is used nowhere.
\<close>

theorem second_traversal_after_success:
  assumes als: "getAliases X entry (world s) = Inr als"
    and p: "p = pathResolve X (processCwd s) (entryFile entry)"
    and c: "c = mk entry als"
    and first: "traverse X p c (world s) = (Inr ra, wa)"
  shows "traverseEntries X mk (entry # rest) acc s =
     (case traverse X p c wa of
        (Inl eb, wb) \<Rightarrow>
          (Thrown eb,
           s\<lparr>world := wb,
             trace := trace s @ [LogStartTraversal entry, CallTraverse p c, CallTraverse p c]\<rparr>)
      | (Inr rb, wb) \<Rightarrow>
          traverseEntries X mk rest (mergeResult acc rb)
            (s\<lparr>world := wb,
               trace := trace s @ [LogStartTraversal entry, CallTraverse p c, CallTraverse p c]\<rparr>))"
proof -
  have "traverseEntry X mk entry s =
      callTraverse X p c
        (s\<lparr>world := wa, trace := trace s @ [LogStartTraversal entry, CallTraverse p c]\<rparr>)"
    using first by (simp add: traverseEntry_run [OF als] p c traverseWithRetry_first_ok)
  then show ?thesis
    by (simp add: bnd_def callTraverse_def acting_def split: prod.splits sum.splits)
qed

theorem second_traversal_after_success_witness:
  "traverse demoExterns demoEntryPath clientConfig 1 = (Inr clientResult, 2)
   \<and> traverse demoExterns demoEntryPath clientConfig 2 = (Inr clientResult, 3)
   \<and> traverseEntries demoExterns demoTraverseConfig [clientEntry] getResultObject (demoStart 1 ''/project'') =
       (Normal (mergeResult getResultObject clientResult),
        \<lparr>world = 3, processCwd = ''/project'',
         trace = [LogStartTraversal clientEntry, CallTraverse demoEntryPath clientConfig,
                  CallTraverse demoEntryPath clientConfig]\<rparr>)"
proof -
  have als: "getAliases demoExterns clientEntry (world (demoStart 1 ''/project'')) = Inr (entryAliases clientEntry)"
    by simp
  have p: "demoEntryPath = pathResolve demoExterns (processCwd (demoStart 1 ''/project'')) (entryFile clientEntry)"
    by (simp add: demoStart_def)
  have c: "clientConfig = demoTraverseConfig clientEntry (entryAliases clientEntry)"
    by simp
  have first: "traverse demoExterns demoEntryPath clientConfig (world (demoStart 1 ''/project'')) = (Inr clientResult, 2)"
    by (simp add: demoStart_def)
  have second: "traverse demoExterns demoEntryPath clientConfig 2 = (Inr clientResult, 3)"
    by simp
  from second_traversal_after_success
      [where mk = demoTraverseConfig and rest = "[]" and acc = getResultObject, OF als p c first] second first
  show ?thesis by (simp add: ret_def demoStart_def)
qed

text \<open>
  C9. With the update flag set, once the traversals and the processing of the results
  have succeeded, \<open>main\<close> calls \<open>updateAllowLists\<close> and exits with code 0, whatever the
  scan found (also when the result is not clean), and \<open>printResults\<close> is called nowhere.
\<close>

theorem update_exits_zero_without_report:
  assumes enters: "entersProject X args0 s projectPkg unimportedPkg"
    and upd: "update args0"
    and prepared: "mainSetup X args0 unimportedPkg (projectDir X projectPkg) (spinnerOf X) (atTry X projectPkg s)
                  = (Normal (args, cfg, deps, modDirs, ctx), sa)"
    and traversed: "mainTraversal X args cfg deps modDirs (projectDir X projectPkg) (spinnerOf X) sa
                  = (Normal traverseResult, sb)"
    and src: "fsExists X ''src'' (projectDir X projectPkg) (world sb) = Inr hasSrc"
    and listed: "fsList X ''**/*''
                   (if hasSrc then pathJoin X (projectDir X projectPkg) ''src'' else projectDir X projectPkg)
                   (configExtensions cfg) (ignorePatterns cfg) (world sb) = Inr listed"
    and processed: "processResults X (map normalizeSlashes listed) traverseResult ctx (world sb) = Inr result"
    and written: "updateAllowLists X result ctx (if cache args0 then storeCache X (world sb) else world sb)
                  = (Inr (), wc)"
  shows "main X args0 s =
       (Exited 0,
        sb\<lparr>world := wc,
           trace := trace sb @
             [textEvent (spinnerOf X) ''traverse the file system'',
              textEvent (spinnerOf X) ''process results'',
              stopEvent (spinnerOf X)] @
             (if cache args0 then [CallStoreCache] else []) @
             [CallUpdateAllowLists result ctx]\<rparr>)
     \<and> reports (trace sb @
             [textEvent (spinnerOf X) ''traverse the file system'',
              textEvent (spinnerOf X) ''process results'',
              stopEvent (spinnerOf X)] @
             (if cache args0 then [CallStoreCache] else []) @
             [CallUpdateAllowLists result ctx]) = reports (trace s)"
proof -
  have flags: "update args = update args0" "cache args = cache args0"
    using mainSetup_args [OF prepared] by simp_all
  have "mainTry X args0 unimportedPkg (projectDir X projectPkg) (spinnerOf X) (atTry X projectPkg s)
      = afterTraversal X args cfg ctx (projectDir X projectPkg) (spinnerOf X) traverseResult sb"
    using prepared traversed by (rule mainTry_after_traversal)
  also have "\<dots> = (Exited 0,
        sb\<lparr>world := wc,
           trace := trace sb @
             [textEvent (spinnerOf X) ''traverse the file system'',
              textEvent (spinnerOf X) ''process results'',
              stopEvent (spinnerOf X)] @
             (if cache args0 then [CallStoreCache] else []) @
             [CallUpdateAllowLists result ctx]\<rparr>)"
    using src listed processed written upd flags
    by (cases "cache args0")
       (simp_all add: afterTraversal_def spinnerText_def spinnerStop_def bnd_reading_Inr
          bnd_assoc bnd_acting_Inr)
  finally have run: "main X args0 s = (Exited 0,
        sb\<lparr>world := wc,
           trace := trace sb @
             [textEvent (spinnerOf X) ''traverse the file system'',
              textEvent (spinnerOf X) ''process results'',
              stopEvent (spinnerOf X)] @
             (if cache args0 then [CallStoreCache] else []) @
             [CallUpdateAllowLists result ctx]\<rparr>)"
    by (simp add: main_enters [OF enters] tryCatch_def)
  have "reports (trace sa) = reports (trace (atTry X projectPkg s))"
    using quietD [OF quiet_mainSetup prepared] .
  moreover have "reports (trace sb) = reports (trace sa)"
    using quietD [OF quiet_mainTraversal traversed] .
  ultimately have "reports (trace sb @
             [textEvent (spinnerOf X) ''traverse the file system'',
              textEvent (spinnerOf X) ''process results'',
              stopEvent (spinnerOf X)] @
             (if cache args0 then [CallStoreCache] else []) @
             [CallUpdateAllowLists result ctx]) = reports (trace s)"
    by (cases "spinnerOf X") simp_all
  with run show ?thesis by simp
qed

theorem update_exits_zero_without_report_witness:
  "update (demoArgs\<lparr>update := True\<rparr>)
   \<and> fst (main demoExterns (demoArgs\<lparr>update := True\<rparr>) (demoStart 1 ''/project/src'')) = Exited 0
   \<and> last (trace (snd (main demoExterns (demoArgs\<lparr>update := True\<rparr>) (demoStart 1 ''/project/src'')))) =
       CallUpdateAllowLists
         \<lparr>unimported = [''src/unused.js''],
          unresolvedImports = unresolved (mergeAll [clientResult, serverResult]), unused = [],
          clean = False\<rparr>
         (demoContext (demoArgs\<lparr>update := True\<rparr>))
   \<and> reports (trace (snd (main demoExterns (demoArgs\<lparr>update := True\<rparr>) (demoStart 1 ''/project/src'')))) = []"
proof -
  let ?args = "demoArgs\<lparr>update := True\<rparr>"
  let ?start = "demoStart 1 ''/project/src''"
  let ?result = "\<lparr>unimported = [''src/unused.js''],
          unresolvedImports = unresolved (mergeAll [clientResult, serverResult]), unused = [],
          clean = False\<rparr>"
  let ?sb = "\<lparr>world = 5, processCwd = ''/project'',
         trace = [Chdir ''/project'', LogInfo ''resolving imports''] @
           [LogStartTraversal clientEntry, CallTraverse demoEntryPath clientConfig,
            CallTraverse demoEntryPath clientConfig,
            LogStartTraversal serverEntry, CallTraverse demoEntryPath serverConfig,
            CallTraverse demoEntryPath serverConfig]\<rparr> :: nat state"
  have enters: "entersProject demoExterns ?args ?start demoProjectPkg demoOwnPkg"
    by (simp add: entersProject_def demoArgs_def demoStart_def demoProjectPkg_def demoOwnPkg_def)
  have upd: "update ?args" by simp
  have prepared: "mainSetup demoExterns ?args demoOwnPkg (projectDir demoExterns demoProjectPkg)
      (spinnerOf demoExterns) (atTry demoExterns demoProjectPkg ?start)
      = (Normal (?args, demoConfig, demoDependencies, [''node_modules''], demoContext ?args),
         \<lparr>world = 1, processCwd = ''/project'', trace = [Chdir ''/project'']\<rparr>)"
    by (simp add: demo_atTry demo_mainSetup demoArgs_def)
  have entries: "entryFiles demoConfig = [clientEntry, serverEntry]"
    by (simp add: demoConfig_def)
  have traversed: "mainTraversal demoExterns ?args demoConfig demoDependencies [''node_modules'']
      (projectDir demoExterns demoProjectPkg) (spinnerOf demoExterns)
      \<lparr>world = 1, processCwd = ''/project'', trace = [Chdir ''/project'']\<rparr>
      = (Normal (mergeAll [clientResult, serverResult]), ?sb)"
    using demo_traverseEntries [of "[Chdir ''/project'', LogInfo ''resolving imports'']"]
    by (simp add: mainTraversal_run demo_atTry entries demo_config_of demoArgs_def
        del: traverseEntries.simps)
  have src: "fsExists demoExterns ''src'' (projectDir demoExterns demoProjectPkg) (world ?sb) = Inr True"
    by simp
  have listed: "fsList demoExterns ''**/*''
      (if True then pathJoin demoExterns (projectDir demoExterns demoProjectPkg) ''src''
       else projectDir demoExterns demoProjectPkg)
      (configExtensions demoConfig) (ignorePatterns demoConfig) (world ?sb)
      = Inr [''/project/src/entry.js'', ''/project/src/unused.js'']"
    by (simp add: demo_atTry)
  have processed: "processResults demoExterns
      (map normalizeSlashes [''/project/src/entry.js'', ''/project/src/unused.js''])
      (mergeAll [clientResult, serverResult]) (demoContext ?args) (world ?sb) = Inr ?result"
    by simp
  have written: "updateAllowLists demoExterns ?result (demoContext ?args)
      (if cache ?args then storeCache demoExterns (world ?sb) else world ?sb) = (Inr (), 5)"
    by (simp add: demoArgs_def)
  from update_exits_zero_without_report [OF enters upd prepared traversed src listed processed written]
  show ?thesis by (simp add: demo_atTry demoArgs_def demoStart_def)
qed

text \<open>
  C10. If no project \<open>package.json\<close> is found from the working directory, or the one
  found is the tool's own, \<open>main\<close> writes \<open>could not resolve package.json, are you in a
  node project?\<close> to stderr and exits with code 1; nothing else happens, so no
  traversal is performed.
\<close>

theorem main_without_package_json:
  assumes project: "readPkgUp X (case cwd args of Some d \<Rightarrow> d | None \<Rightarrow> processCwd s) (world s) = Inr projectPkg"
    and own: "readPkgUp X (moduleDir X) (world s) = Inr unimportedPkg"
    and missing: "projectPkg = None \<or> unimportedPkg = None
                  \<or> map_option pkgPath unimportedPkg = map_option pkgPath projectPkg"
  shows "main X args s =
       (Exited 1,
        s\<lparr>trace := trace s @
           [ConsoleError (RedBright ''could not resolve package.json, are you in a node project?'')]\<rparr>)
     \<and> filter isTraversal (trace (snd (main X args s))) = filter isTraversal (trace s)"
proof -
  have "main X args s =
       (Exited 1,
        s\<lparr>trace := trace s @
           [ConsoleError (RedBright ''could not resolve package.json, are you in a node project?'')]\<rparr>)"
    using assms
    by (auto simp: main_def bnd_reading_Inr noPackageJson_run split: option.splits)
  then show ?thesis by simp
qed

theorem main_without_package_json_witness:
  "readPkgUp demoExterns ''/tmp'' (0::nat) = Inr None
   \<and> main demoExterns demoArgs (demoStart 0 ''/tmp'') =
       (Exited 1,
        \<lparr>world = 0, processCwd = ''/tmp'',
         trace = [ConsoleError (RedBright ''could not resolve package.json, are you in a node project?'')]\<rparr>)"
proof -
  have project: "readPkgUp demoExterns
      (case cwd demoArgs of Some d \<Rightarrow> d | None \<Rightarrow> processCwd (demoStart 0 ''/tmp''))
      (world (demoStart 0 ''/tmp'')) = Inr None"
    by (simp add: demoArgs_def demoStart_def)
  have own: "readPkgUp demoExterns (moduleDir demoExterns) (world (demoStart 0 ''/tmp'')) = Inr (Some demoOwnPkg)"
    by simp
  from main_without_package_json [OF project own]
  show ?thesis by (simp add: demoStart_def)
qed

end
